theory Spec2Isabelle
  imports Main "HOL-Library.Word" "HOL-Library.Multiset" "HOL-Library.Char_ord"
begin

section \<open>The depot of 2310depot.c\<close>

text \<open>
  A shallow embedding of \<^verbatim>\<open>2310depot.c\<close>: the start-up argument processing, the
  per-connection message handlers, the deferred-command list and the report printed on
  SIGHUP.

  Conventions of the embedding.
  \<^item> A C string is a \<open>string\<close> without the terminating NUL; \<open>strcmp(a, b) == 0\<close> is
    equality and \<open>strlen(s) == 0\<close> is \<open>s = []\<close>.
  \<^item> \<open>int\<close> is \<open>32 word\<close> (read as two's complement by \<open>sint\<close>, compared by
    \<open><s\<close>); arithmetic on amounts wraps around, as the compiled program does where
    the C standard leaves signed overflow undefined. \<open>long\<close> values are only compared,
    so they are integers kept inside the range of a 64-bit \<open>long\<close> by \<open>strtol\<close>.
  \<^item> An array with its element count (\<open>resources\<close>/\<open>numResources\<close>,
    \<open>neighbours\<close>/\<open>numNeighbours\<close>, \<open>deferred\<close>/\<open>deferCount\<close>) is a list; the fixed
    capacities of the allocations (2048, 256 and 1024 elements, 256 bytes for a line and
    for each of its fields) are not modelled.
  \<^item> The program reads buffers it has just obtained from \<open>malloc\<close> before writing
    them: \<open>validate_input\<close> ends a field with a NUL only at a colon, so the last field
    of a line runs on into what its buffer held before; \<open>defer_creator\<close> takes
    \<open>strlen\<close> of buffers never written and appends to a new buffer with \<open>strcat\<close>.
    What \<open>malloc\<close> returns is a parameter of the embedding (\<open>buffers\<close>, \<open>heap\<close>): the
    bytes found in each buffer.
  \<^item> Only one thread is followed at a time. What other threads do to the shared
    \<open>Depot\<close> and \<open>ThreadInfo\<close> between two steps is outside the embedding.
\<close>

subsection \<open>Data\<close>

type_synonym c_int = "32 word"

record Resource =
  resource :: string
  amount :: c_int

record Neighbour =
  name :: string
  portNo :: c_int
  nb_to :: nat
  nb_from :: nat

record Depot =
  numColons :: int
  depot_portNo :: c_int
  depot_name :: string
  resources :: "Resource list"
  neighbours :: "Neighbour list"

record Defer =
  key :: int
  args :: string
  complete :: bool

text \<open>
  \<open>ThreadInfo\<close> with its \<open>Depot\<close> (a pointer in C) held in the field \<open>depot\<close>. The
  last two fields are not fields of the C struct: \<open>sent\<close> lists what the handlers have
  written to a stream (the \<open>FILE*\<close>, the text), and \<open>spawned\<close> the ports of the threads
  started with \<open>pthread_create(..., new_connection, ...)\<close>. The sockets and the client
  number are left out.
\<close>

record ThreadInfo =
  depot :: Depot
  deferred :: "Defer list"
  msgCount :: c_int
  ti_portNo :: c_int
  ti_to :: nat
  ti_from :: nat
  imSent :: bool
  imRecieved :: bool
  sent :: "(nat \<times> string) list"
  spawned :: "c_int list"

text \<open>
  Memory. \<open>cstr bs\<close> is the C string at the start of the bytes \<open>bs\<close>. \<open>buffers\<close> are
  the bytes in the buffers one call of \<open>validate_input\<close> obtains from \<open>malloc\<close>, as
  \<open>malloc\<close> returns them: \<open>args_mem i\<close> for \<open>args[i]\<close>, \<open>msg_mem i\<close> for
  \<open>messageArgs[i]\<close> of \<open>transfer_message\<close> and \<open>out_mem\<close> for \<open>output\<close> of
  \<open>defer_creator\<close>. A \<open>heap\<close> gives the buffers of a call of \<open>validate_input\<close> and of
  the calls below it: \<open>h []\<close> are those of the call itself, \<open>\<lambda>q. h (j # q)\<close> is the heap
  of the call \<open>execute_message\<close> makes for the \<open>j\<close>-th line it dispatches.
\<close>

definition cstr :: "char list \<Rightarrow> string" where
  "cstr bs = takeWhile (\<lambda>c. c \<noteq> CHR 0x00) bs"

record buffers =
  args_mem :: "nat \<Rightarrow> char list"
  msg_mem :: "nat \<Rightarrow> char list"
  out_mem :: "char list"

type_synonym heap = "nat list \<Rightarrow> buffers"

text \<open>\<open>exit(n)\<close> ends the process; a function that may call it returns \<open>Inl (Exit n)\<close>.\<close>

datatype error = Exit nat

subsection \<open>The C library\<close>

definition isspace :: "char \<Rightarrow> bool" where
  "isspace c = (c = CHR '' '' \<or> c = CHR 0x09 \<or> c = CHR 0x0A \<or> c = CHR 0x0B
     \<or> c = CHR 0x0C \<or> c = CHR 0x0D)"

definition isdigit :: "char \<Rightarrow> bool" where
  "isdigit c = (48 \<le> (of_char c :: nat) \<and> (of_char c :: nat) \<le> 57)"

definition LONG_MAX :: int where
  "LONG_MAX = 9223372036854775807"

definition LONG_MIN :: int where
  "LONG_MIN = - 9223372036854775808"

text \<open>
  \<open>strtol(nptr, &ptr, 10)\<close>: white space is skipped, an optional sign is read, then the
  decimal digits. The result is the value, clamped to the range of \<open>long\<close>, and the rest
  of the string after the digits (\<open>ptr\<close>). With no digit at all the value is 0 and
  \<open>ptr\<close> is the whole of \<open>nptr\<close>.
\<close>

definition strtol :: "string \<Rightarrow> int \<times> string" where
  "strtol nptr =
     (let s = dropWhile isspace nptr;
          neg = (s \<noteq> [] \<and> hd s = CHR ''-'');
          t = (if s \<noteq> [] \<and> (hd s = CHR ''-'' \<or> hd s = CHR ''+'') then tl s else s);
          ds = takeWhile isdigit t;
          v = foldl (\<lambda>acc c. 10 * acc + (int (of_char c) - 48)) 0 ds
      in if ds = [] then (0, nptr)
         else (if neg then max LONG_MIN (- v) else min LONG_MAX v, dropWhile isdigit t))"

text \<open>\<open>atoi(s)\<close> is \<open>(int) strtol(s, NULL, 10)\<close>, as in glibc.\<close>

definition atoi :: "string \<Rightarrow> c_int" where
  "atoi s = word_of_int (fst (strtol s))"

subsection \<open>Start-up: \<open>main\<close>, \<open>is_name_valid\<close>, \<open>is_amount_valid\<close>, \<open>gather_resources\<close>\<close>

definition invalid_chars :: string where
  "invalid_chars = [CHR '' '', CHR 0x0A, CHR 0x0D, CHR '':'']"

definition is_name_valid :: "string \<Rightarrow> error + string" where
  "is_name_valid nm =
     (if nm = [] then Inl (Exit 1)
      else if list_ex (\<lambda>c. c \<in> set invalid_chars) nm then Inl (Exit 2)
      else Inr nm)"

definition is_amount_valid :: "string \<Rightarrow> error + c_int" where
  "is_amount_valid amt =
     (let (output, ptr) = strtol amt
      in if \<not> (atoi amt \<noteq> 0 \<and> output \<ge> 0 \<and> ptr = []) then Inl (Exit 3)
         else Inr (word_of_int output))"

text \<open>
  The loop of \<open>gather_resources\<close> over \<open>resources[2..]\<close>: an even position holds a
  good, the following odd position its quantity; \<open>j\<close> moves on after the quantity, so a
  trailing good without quantity is checked and dropped.
\<close>

fun gather_loop :: "string list \<Rightarrow> Resource list \<Rightarrow> error + Resource list" where
  "gather_loop [] loot = Inr loot"
| "gather_loop [g] loot =
     (case is_name_valid g of Inl e \<Rightarrow> Inl e | Inr nm \<Rightarrow> Inr loot)"
| "gather_loop (g # q # rest) loot =
     (case is_name_valid g of
        Inl e \<Rightarrow> Inl e
      | Inr nm \<Rightarrow>
          (case is_amount_valid q of
             Inl e \<Rightarrow> Inl e
           | Inr a \<Rightarrow> gather_loop rest (loot @ [\<lparr>resource = nm, amount = a\<rparr>])))"

definition gather_resources :: "string list \<Rightarrow> error + Resource list" where
  "gather_resources argv2 = gather_loop argv2 []"

text \<open>
  \<open>main\<close> up to the call of \<open>init_server\<close>, on \<open>argv[1..]\<close>; \<open>port\<close> is the port the
  system gives the listening socket.
\<close>

definition main_startup :: "c_int \<Rightarrow> string list \<Rightarrow> error + Depot" where
  "main_startup port argv =
     (case argv of
        [] \<Rightarrow> Inl (Exit 1)
      | nm # rest \<Rightarrow>
          (case is_name_valid nm of
             Inl e \<Rightarrow> Inl e
           | Inr n \<Rightarrow>
               (case gather_resources rest of
                  Inl e \<Rightarrow> Inl e
                | Inr loot \<Rightarrow>
                    Inr \<lparr>numColons = 0, depot_portNo = port, depot_name = n,
                         resources = loot, neighbours = []\<rparr>)))"

subsection \<open>Splitting a line: the \<open>while\<close> loop of \<open>validate_input\<close>\<close>

text \<open>
  \<open>input\<close> are the bytes at the pointer \<open>validate_input\<close> is given: the line, and what
  follows it in memory. \<open>split_args input cur fin n\<close> is the loop at the position where
  \<open>fin\<close> holds the bytes written to the finished fields \<open>args[0..i-1]\<close>, \<open>cur\<close> the
  bytes written to \<open>args[i]\<close> so far and \<open>n\<close> is \<open>numColons\<close>. A colon ends the field;
  the byte after it is copied without being looked at unless it is the newline, so the
  second of two adjacent colons becomes the first byte of the next field. The loop only
  stops at a newline: a NUL is copied like any other byte and the loop reads on. The
  result is \<open>None\<close> when the bytes given hold no newline where the loop looks for it.
\<close>

fun split_args ::
  "char list \<Rightarrow> char list \<Rightarrow> char list list \<Rightarrow> int \<Rightarrow> (char list list \<times> int) option" where
  "split_args [] cur fin n = None"
| "split_args (c # cs) cur fin n =
     (if c = CHR 0x0A then Some (fin @ [cur], n)
      else if c = CHR '':'' then
        (case cs of
           [] \<Rightarrow> None
         | d # ds \<Rightarrow>
             if d = CHR 0x0A then Some (fin @ [cur, []], n + 1)
             else split_args ds [d] (fin @ [cur]) (n + 1))
      else split_args cs (cur @ [c]) fin n)"

text \<open>
  The C string at \<open>args[i]\<close> after the loop, for the written bytes \<open>fs\<close> and the bytes
  \<open>m i\<close> the buffer held before. A field ended by a colon has a NUL after its bytes. The
  last field has none: its string runs on into the old bytes of the buffer. A buffer the
  loop has not reached holds its old bytes.
\<close>

definition arg :: "(nat \<Rightarrow> char list) \<Rightarrow> char list list \<Rightarrow> nat \<Rightarrow> string" where
  "arg m fs i =
     (if Suc i < length fs then cstr (fs ! i)
      else if Suc i = length fs then cstr (fs ! i @ drop (length (fs ! i)) (m i))
      else cstr (m i))"

definition messages :: "string list" where
  "messages = [''Connect'', ''IM'', ''Deliver'', ''Withdraw'', ''Transfer'', ''Defer'',
     ''Execute'']"

subsection \<open>\<open>verify_num\<close> and \<open>verify_name\<close>\<close>

definition verify_num :: "string \<Rightarrow> c_int" where
  "verify_num input =
     (let (output, ptr) = strtol input
      in if ptr = [] \<and> output > 0 then word_of_int output else 0)"

definition verify_name :: "string \<Rightarrow> string" where
  "verify_name input =
     (if input \<noteq> [] then
        (if list_ex (\<lambda>c. c \<in> set invalid_chars) input then [] else input)
      else [])"

subsection \<open>The handlers\<close>

text \<open>The argument \<open>a\<close> of a handler gives the C string at \<open>args[i]\<close>.\<close>

definition connect_message :: "(nat \<Rightarrow> string) \<Rightarrow> ThreadInfo \<Rightarrow> ThreadInfo" where
  "connect_message a ti =
     (let portNum = verify_num (a 1);
          ti1 = ti\<lparr>ti_portNo := portNum\<rparr>
      in if portNum \<noteq> 0 \<and> imRecieved ti then ti1\<lparr>spawned := spawned ti1 @ [portNum]\<rparr>
         else ti1)"

definition im_message :: "(nat \<Rightarrow> string) \<Rightarrow> ThreadInfo \<Rightarrow> ThreadInfo" where
  "im_message a ti =
     (let d = depot ti;
          portNum = verify_num (a 1);
          depotName = verify_name (a 2)
      in if \<not> (portNum = 0 \<or> depotName = []) \<and> numColons d = 2 \<and> \<not> imRecieved ti then
           (let neighbourFound =
                  list_ex (\<lambda>nb. depotName = name nb \<or> portNum = portNo nb) (neighbours d)
            in if \<not> neighbourFound then
                 ti\<lparr>depot := d\<lparr>neighbours := neighbours d @
                        [\<lparr>name = depotName, portNo = portNum,
                          nb_to = ti_to ti, nb_from = ti_from ti\<rparr>]\<rparr>,
                    imRecieved := True\<rparr>
               else ti)
         else ti)"

text \<open>
  The loops of \<open>deliver_message\<close> and \<open>withdraw_message\<close> over the resources, with the
  flag \<open>delivered\<close>: only the first entry of the good is changed.
\<close>

fun deliver_loop :: "string \<Rightarrow> c_int \<Rightarrow> Resource list \<Rightarrow> bool \<Rightarrow> Resource list \<times> bool" where
  "deliver_loop good amt [] delivered = ([], delivered)"
| "deliver_loop good amt (r # rs) delivered =
     (if good = resource r \<and> \<not> delivered then
        (let (rs', dl) = deliver_loop good amt rs True
         in (r\<lparr>amount := amount r + amt\<rparr> # rs', dl))
      else
        (let (rs', dl) = deliver_loop good amt rs delivered
         in (r # rs', dl)))"

definition deliver_message :: "(nat \<Rightarrow> string) \<Rightarrow> ThreadInfo \<Rightarrow> ThreadInfo" where
  "deliver_message a ti =
     (let d = depot ti;
          amt = verify_num (a 1);
          good = verify_name (a 2)
      in if 0 <s amt \<and> numColons d = 2 then
           (let (rs, delivered) = deliver_loop good amt (resources d) False
            in if \<not> delivered then
                 ti\<lparr>depot := d\<lparr>resources := rs @ [\<lparr>resource = good, amount = amt\<rparr>]\<rparr>\<rparr>
               else ti\<lparr>depot := d\<lparr>resources := rs\<rparr>\<rparr>)
         else ti)"

fun withdraw_loop :: "string \<Rightarrow> c_int \<Rightarrow> Resource list \<Rightarrow> bool \<Rightarrow> Resource list \<times> bool" where
  "withdraw_loop good amt [] delivered = ([], delivered)"
| "withdraw_loop good amt (r # rs) delivered =
     (if good = resource r \<and> \<not> delivered then
        (let (rs', dl) = withdraw_loop good amt rs True
         in (r\<lparr>amount := amount r - amt\<rparr> # rs', dl))
      else
        (let (rs', dl) = withdraw_loop good amt rs delivered
         in (r # rs', dl)))"

definition withdraw_message :: "(nat \<Rightarrow> string) \<Rightarrow> ThreadInfo \<Rightarrow> ThreadInfo" where
  "withdraw_message a ti =
     (let d = depot ti;
          amt = verify_num (a 1);
          good = verify_name (a 2)
      in if 0 <s amt \<and> numColons d = 2 then
           (let (rs, delivered) = withdraw_loop good amt (resources d) False
            in if \<not> delivered then
                 ti\<lparr>depot := d\<lparr>resources := rs @ [\<lparr>resource = good, amount = 0 - amt\<rparr>]\<rparr>\<rparr>
               else ti\<lparr>depot := d\<lparr>resources := rs\<rparr>\<rparr>)
         else ti)"

text \<open>
  \<open>transfer_message\<close> sets \<open>numColons\<close> to 2 itself, then acts at the first neighbour
  named \<open>args[3]\<close>: \<open>withdraw_message\<close> on the new array \<open>messageArgs\<close> (buffers with
  the bytes \<open>mm\<close>, the pointers 1 and 2 replaced by \<open>args[1]\<close> and \<open>args[2]\<close>), then the
  \<open>Deliver\<close> line written to that neighbour's stream.
\<close>

definition transfer_message ::
  "(nat \<Rightarrow> string) \<Rightarrow> (nat \<Rightarrow> char list) \<Rightarrow> ThreadInfo \<Rightarrow> ThreadInfo" where
  "transfer_message a mm ti =
     (let messageArgs = (\<lambda>i. if i = 1 then a 1 else if i = 2 then a 2 else cstr (mm i));
          ti1 = ti\<lparr>depot := (depot ti)\<lparr>numColons := 2\<rparr>\<rparr>
      in case find (\<lambda>nb. a 3 = name nb) (neighbours (depot ti1)) of
           None \<Rightarrow> ti1
         | Some nb \<Rightarrow>
             (let ti2 = withdraw_message messageArgs ti1
              in ti2\<lparr>sent := sent ti2 @
                   [(nb_to nb, ''Deliver:'' @ a 1 @ '':'' @ a 2 @ [CHR 0x0A])]\<rparr>))"

text \<open>
  \<open>defer_creator\<close> counts the non-empty strings among \<open>args[2..255]\<close> and appends with
  \<open>strcat\<close> to the new buffer \<open>output\<close>, that is after the C string \<open>out\<close> the buffer
  holds already.
\<close>

definition defer_creator :: "(nat \<Rightarrow> string) \<Rightarrow> char list \<Rightarrow> string" where
  "defer_creator a out =
     (let numArgs = length (filter (\<lambda>i. a i \<noteq> []) [2..<256])
      in if numArgs = 3 then
           cstr out @ a 2 @ '':'' @ a 3 @ '':'' @ a 4 @ [CHR 0x0A]
         else if numArgs = 4 then
           cstr out @ a 2 @ '':'' @ a 3 @ '':'' @ a 4 @ '':'' @ a 5 @ [CHR 0x0A]
         else [])"

definition defer_message :: "(nat \<Rightarrow> string) \<Rightarrow> char list \<Rightarrow> ThreadInfo \<Rightarrow> ThreadInfo" where
  "defer_message a out ti =
     (let defArgs = defer_creator a out;
          (k, ptr) = strtol (a 1)
      in if ptr = [] \<and> k > 0 \<and> defArgs \<noteq> [] then
           ti\<lparr>deferred := deferred ti @ [\<lparr>key = k, args = defArgs, complete = False\<rparr>]\<rparr>
         else ti)"

text \<open>
  The first loop of \<open>execute_message\<close>: the commands to execute, in the order of the
  list, and the list with those entries marked complete.
\<close>

fun collect :: "int \<Rightarrow> Defer list \<Rightarrow> string list \<times> Defer list" where
  "collect k [] = ([], [])"
| "collect k (d # ds) =
     (let (toExec, ds') = collect k ds
      in if k = key d \<and> complete d = False then (args d # toExec, d\<lparr>complete := True\<rparr> # ds')
         else (toExec, d # ds'))"

subsection \<open>\<open>validate_input\<close>, \<open>do_input\<close> and \<open>execute_message\<close>\<close>

text \<open>
  \<open>execute_message\<close> calls \<open>validate_input\<close> on the stored lines, which may call
  \<open>execute_message\<close> again. The first argument bounds the depth of these calls: with
  depth 0 left there is no result (\<open>None\<close>). The second argument is the heap of the
  call. \<open>validate_input\<close> calls \<open>do_input\<close> for the entry of \<open>messages\<close> that equals
  \<open>args[0]\<close> (the entries differ, so there is at most one; the comparisons the C loop
  still makes after \<open>free(args)\<close> are not followed). \<open>execute_loop n h j ls\<close> is the
  second loop of \<open>execute_message\<close> at position \<open>j\<close>, with the lines \<open>ls\<close> left.
\<close>

function validate_input :: "nat \<Rightarrow> heap \<Rightarrow> char list \<Rightarrow> ThreadInfo \<Rightarrow> ThreadInfo option"
  and do_input :: "nat \<Rightarrow> heap \<Rightarrow> (nat \<Rightarrow> string) \<Rightarrow> nat \<Rightarrow> ThreadInfo \<Rightarrow> ThreadInfo option"
  and execute_message :: "nat \<Rightarrow> heap \<Rightarrow> (nat \<Rightarrow> string) \<Rightarrow> ThreadInfo \<Rightarrow> ThreadInfo option"
  and execute_loop :: "nat \<Rightarrow> heap \<Rightarrow> nat \<Rightarrow> string list \<Rightarrow> ThreadInfo \<Rightarrow> ThreadInfo option"
where
  "validate_input 0 h input ti = None"
| "validate_input (Suc n) h input ti =
     (case split_args input [] [] 0 of
        None \<Rightarrow> None
      | Some (fs, nc) \<Rightarrow>
          (let a = arg (args_mem (h [])) fs;
               ti1 = ti\<lparr>depot := (depot ti)\<lparr>numColons := nc\<rparr>\<rparr>
           in case find (\<lambda>i. a 0 = messages ! i) [0, 1, 2, 3, 4, 5, 6] of
                None \<Rightarrow> Some ti1
              | Some i \<Rightarrow> do_input n h a i ti1))"
| "do_input n h a msg ti =
     (if msg = 0 then Some (connect_message a ti)
      else if msg = 1 then Some (im_message a ti)
      else if msg = 2 then Some (deliver_message a ti)
      else if msg = 3 then Some (withdraw_message a ti)
      else if msg = 4 then Some (transfer_message a (msg_mem (h [])) ti)
      else if msg = 5 then Some (defer_message a (out_mem (h [])) ti)
      else if msg = 6 then execute_message n h a ti
      else Some ti)"
| "execute_message n h a ti =
     (let (k, ptr) = strtol (a 1)
      in if ptr = [] \<and> k > 0 then
           (let (toExec, ds) = collect k (deferred ti)
            in execute_loop n h 0 toExec (ti\<lparr>deferred := ds\<rparr>))
         else Some ti)"
| "execute_loop n h j [] ti = Some ti"
| "execute_loop n h j (l # ls) ti =
     (case validate_input n (\<lambda>q. h (j # q)) l ti of
        None \<Rightarrow> None
      | Some ti1 \<Rightarrow> execute_loop n h (Suc j) ls ti1)"
  by pat_completeness auto
termination
  by (relation "inv_image (less_than <*lex*> less_than) (\<lambda>x. case x of
        Inl (Inl (n, h, l, ti)) \<Rightarrow> (4 * n, 0)
      | Inl (Inr (n, h, a, m, ti)) \<Rightarrow> (4 * n + 3, 0)
      | Inr (Inl (n, h, a, ti)) \<Rightarrow> (4 * n + 2, 0)
      | Inr (Inr (n, h, j, ls, ti)) \<Rightarrow> (4 * n + 1, length ls))") auto

subsection \<open>The session: \<open>client_connections\<close>\<close>

text \<open>
  The fields \<open>client_connections\<close> sets before its loop (the \<open>IM\<close> line it writes first
  is not recorded). \<open>fgets l buf\<close> are the bytes of \<open>inputMessage\<close> after \<open>fgets\<close> has
  stored the line \<open>l\<close> and its NUL over the old bytes \<open>buf\<close>. \<open>client_loop n hs j buf ls\<close>
  is the loop at its \<open>j\<close>-th line, with the lines \<open>ls\<close> still to be read; \<open>hs j\<close> is the
  heap of the call of \<open>validate_input\<close> for the \<open>j\<close>-th line. From the third line on the
  loop ends unless \<open>imRecieved\<close> and \<open>imSent\<close> are both set.
\<close>

definition client_connections_init :: "nat \<Rightarrow> nat \<Rightarrow> ThreadInfo \<Rightarrow> ThreadInfo" where
  "client_connections_init to_f from_f ti =
     ti\<lparr>msgCount := 0, ti_to := to_f, ti_from := from_f,
        imSent := True, imRecieved := False, deferred := []\<rparr>"

definition fgets :: "char list \<Rightarrow> char list \<Rightarrow> char list" where
  "fgets l buf = l @ CHR 0x00 # drop (Suc (length l)) buf"

fun client_loop ::
  "nat \<Rightarrow> (nat \<Rightarrow> heap) \<Rightarrow> nat \<Rightarrow> char list \<Rightarrow> char list list \<Rightarrow> ThreadInfo \<Rightarrow> ThreadInfo option" where
  "client_loop n hs j buf [] ti = Some ti"
| "client_loop n hs j buf (l # ls) ti =
     (if 1 <s msgCount ti \<and> \<not> (imRecieved ti \<and> imSent ti) then Some ti
      else
        (case validate_input n (hs j) (fgets l buf) ti of
           None \<Rightarrow> None
         | Some ti1 \<Rightarrow>
             client_loop n hs (Suc j) (fgets l buf) ls (ti1\<lparr>msgCount := msgCount ti1 + 1\<rparr>)))"

subsection \<open>The report on SIGHUP: \<open>sigcatcher\<close>\<close>

text \<open>
  \<open>strcmp\<close> compares the first bytes that differ, as unsigned values; the end of a string
  counts as the byte 0.
\<close>

fun strcmp :: "string \<Rightarrow> string \<Rightarrow> int" where
  "strcmp [] [] = 0"
| "strcmp [] (b # bs) = - int (of_char b)"
| "strcmp (a # as) [] = int (of_char a)"
| "strcmp (a # as) (b # bs) =
     (if a = b then strcmp as bs else int (of_char a) - int (of_char b))"

definition lexo_cmp :: "Resource \<Rightarrow> Resource \<Rightarrow> int" where
  "lexo_cmp resource1 resource2 = strcmp (resource resource1) (resource resource2)"

definition neigh_cmp :: "Neighbour \<Rightarrow> Neighbour \<Rightarrow> int" where
  "neigh_cmp neigh1 neigh2 = strcmp (name neigh1) (name neigh2)"

text \<open>The decimal digits of a number, and \<open>printf("%d", x)\<close>.\<close>

fun digits :: "nat \<Rightarrow> string" where
  "digits n = (if n < 10 then [char_of (48 + n)] else digits (n div 10) @ [char_of (48 + n mod 10)])"

definition printf_d :: "c_int \<Rightarrow> string" where
  "printf_d x = (if sint x < 0 then CHR ''-'' # digits (nat (- sint x)) else digits (nat (sint x)))"

text \<open>
  One round of the loop of \<open>sigcatcher\<close>, after \<open>sigwait\<close> has returned: the lines
  printed (each followed by a newline) and the depot with its two arrays sorted in place.
  \<open>qsort\<close> belongs to the C library; \<open>sort_resources\<close> and \<open>sort_neigh\<close> take it as the
  parameters \<open>qsort_r\<close> and \<open>qsort_n\<close>, one for each element type.
\<close>

definition sort_resources :: "(Resource list \<Rightarrow> Resource list) \<Rightarrow> Depot \<Rightarrow> Depot" where
  "sort_resources qsort_r d = d\<lparr>resources := qsort_r (resources d)\<rparr>"

definition sort_neigh :: "(Neighbour list \<Rightarrow> Neighbour list) \<Rightarrow> Depot \<Rightarrow> Depot" where
  "sort_neigh qsort_n d = d\<lparr>neighbours := qsort_n (neighbours d)\<rparr>"

definition sigcatcher ::
  "(Resource list \<Rightarrow> Resource list) \<Rightarrow> (Neighbour list \<Rightarrow> Neighbour list) \<Rightarrow> Depot
     \<Rightarrow> string list \<times> Depot" where
  "sigcatcher qsort_r qsort_n d =
     (let d1 = sort_neigh qsort_n (sort_resources qsort_r d)
      in (''Goods:'' #
          map (\<lambda>r. resource r @ '' '' @ printf_d (amount r))
            (filter (\<lambda>r. amount r \<noteq> 0) (resources d1)) @
          ''Neighbours:'' # map name (neighbours d1),
          d1))"

text \<open>
  What the C standard says of \<open>qsort\<close> with the comparison \<open>cmp\<close>: the array holds the
  same elements afterwards, in ascending order of \<open>cmp\<close>. The order of elements that
  compare equal is not determined.
\<close>

definition qsort_result :: "('a \<Rightarrow> 'a \<Rightarrow> int) \<Rightarrow> 'a list \<Rightarrow> 'a list \<Rightarrow> bool" where
  "qsort_result cmp xs ys = (mset ys = mset xs \<and> sorted_wrt (\<lambda>x y. cmp x y \<le> 0) ys)"

subsection \<open>Lines as a peer writes them\<close>

text \<open>
  \<open>wire fs\<close> is the line a peer writes for the fields \<open>fs\<close>: the fields joined by
  colons, then a newline. A field is \<open>plain\<close> when it is not empty and holds no colon,
  no newline and no NUL.
\<close>

fun join_fields :: "string list \<Rightarrow> string" where
  "join_fields [] = []"
| "join_fields [f] = f"
| "join_fields (f # g # fs) = f @ '':'' @ join_fields (g # fs)"

definition wire :: "string list \<Rightarrow> string" where
  "wire fs = join_fields fs @ [CHR 0x0A]"

definition plain :: "string \<Rightarrow> bool" where
  "plain f = (f \<noteq> [] \<and>
     list_all (\<lambda>c. c \<noteq> CHR '':'' \<and> c \<noteq> CHR 0x0A \<and> c \<noteq> CHR 0x00) f)"

subsection \<open>The inventory as the specification sees it\<close>

text \<open>
  The specification's inventory is a mapping from good names to quantities.
  \<open>inventory rs\<close> reads the array as that mapping: a good is mapped to the amount of its
  first entry, the entry the handlers change. \<open>quantity g rs\<close> is the quantity of \<open>g\<close>,
  zero for a good without entry (the report shows no line for it in both cases).
  \<open>spec_deliver\<close> and \<open>spec_withdraw\<close> are the registry operations in the specification's
  words: add to or subtract from the entry if there is one, else insert \<open>(good, qty)\<close>
  or \<open>(good, - qty)\<close>.
\<close>

definition inventory :: "Resource list \<Rightarrow> (string \<rightharpoonup> c_int)" where
  "inventory rs = map_of (map (\<lambda>r. (resource r, amount r)) rs)"

definition quantity :: "string \<Rightarrow> Resource list \<Rightarrow> c_int" where
  "quantity g rs = (case inventory rs g of None \<Rightarrow> 0 | Some a \<Rightarrow> a)"

definition spec_deliver :: "string \<Rightarrow> c_int \<Rightarrow> (string \<rightharpoonup> c_int) \<Rightarrow> (string \<rightharpoonup> c_int)" where
  "spec_deliver good qty m =
     (case m good of Some a \<Rightarrow> m(good \<mapsto> a + qty) | None \<Rightarrow> m(good \<mapsto> qty))"

definition spec_withdraw :: "string \<Rightarrow> c_int \<Rightarrow> (string \<rightharpoonup> c_int) \<Rightarrow> (string \<rightharpoonup> c_int)" where
  "spec_withdraw good qty m =
     (case m good of Some a \<Rightarrow> m(good \<mapsto> a - qty) | None \<Rightarrow> m(good \<mapsto> - qty))"

subsection \<open>Deferred entries\<close>

text \<open>
  In the words of the specification: \<open>pending k ds\<close> are the positions, in the order of
  the list, of the entries with key \<open>k\<close> that are not complete, and \<open>mark k ds\<close> is the
  list with these entries marked complete.
\<close>

definition pending :: "int \<Rightarrow> Defer list \<Rightarrow> nat list" where
  "pending k ds = filter (\<lambda>i. key (ds ! i) = k \<and> \<not> complete (ds ! i)) [0..<length ds]"

definition mark :: "int \<Rightarrow> Defer list \<Rightarrow> Defer list" where
  "mark k ds = map (\<lambda>d. if key d = k \<and> \<not> complete d then d\<lparr>complete := True\<rparr> else d) ds"

text \<open>
  Notions of the proofs. \<open>unchanged_entry\<close> relates an entry of the deferred list to the
  same entry later. \<open>grows t u\<close>: the deferred list of \<open>u\<close> starts with the entries of
  \<open>t\<close>, each unchanged or marked complete.
\<close>

definition unchanged_entry :: "Defer \<Rightarrow> Defer \<Rightarrow> bool" where
  "unchanged_entry d e = (key e = key d \<and> args e = args d \<and> (complete e \<or> \<not> complete d))"

definition grows :: "ThreadInfo \<Rightarrow> ThreadInfo \<Rightarrow> bool" where
  "grows t u = (length (deferred t) \<le> length (deferred u) \<and>
     list_all2 unchanged_entry (deferred t) (take (length (deferred t)) (deferred u)))"

text \<open>
  \<open>reaches t u\<close>: the thread can get from \<open>t\<close> to \<open>u\<close> by the steps \<open>validate_input\<close>
  and \<open>execute_message\<close> are made of: the assignment of \<open>numColons\<close>, a call of one of
  the six other handlers (on any strings and any memory), the marking loop of
  \<open>execute_message\<close>.
\<close>

inductive reaches :: "ThreadInfo \<Rightarrow> ThreadInfo \<Rightarrow> bool" where
  reaches_refl: "reaches t t"
| reaches_colons: "reaches t u \<Longrightarrow> reaches t (u\<lparr>depot := (depot u)\<lparr>numColons := nc\<rparr>\<rparr>)"
| reaches_connect: "reaches t u \<Longrightarrow> reaches t (connect_message a u)"
| reaches_im: "reaches t u \<Longrightarrow> reaches t (im_message a u)"
| reaches_deliver: "reaches t u \<Longrightarrow> reaches t (deliver_message a u)"
| reaches_withdraw: "reaches t u \<Longrightarrow> reaches t (withdraw_message a u)"
| reaches_transfer: "reaches t u \<Longrightarrow> reaches t (transfer_message a mm u)"
| reaches_defer: "reaches t u \<Longrightarrow> reaches t (defer_message a out u)"
| reaches_marks: "reaches t u \<Longrightarrow> reaches t (u\<lparr>deferred := snd (collect k (deferred u))\<rparr>)"

subsection \<open>What the buffers hold\<close>

text \<open>
  \<open>terminated b fs\<close>: in the buffers \<open>b\<close>, the buffer of the last of the fields \<open>fs\<close>
  holds a NUL right after the bytes of the field, so that the field is read as it was
  written. \<open>unwritten_empty b fs\<close>: the buffers of \<open>args\<close> that the fields \<open>fs\<close> do not
  reach, and the buffer \<open>output\<close>, start with a NUL.

  \<open>fresh_buffers\<close> is memory never used, all bytes zero. In \<open>stale_buffers\<close> the first
  buffers of \<open>args\<close> lie where an array of pointers has been freed, as they do for the
  line after an Execute that has dispatched a stored line (the arrays \<open>args\<close> of the two
  calls are free, the next call takes one as its array and cuts its first buffers from
  the other): every eight bytes hold an old pointer, here the address
  \<^verbatim>\<open>0x7f550401a310\<close>, low byte first.
\<close>

definition terminated :: "buffers \<Rightarrow> char list list \<Rightarrow> bool" where
  "terminated b fs = (cstr (drop (length (last fs)) (args_mem b (length fs - 1))) = [])"

definition unwritten_empty :: "buffers \<Rightarrow> char list list \<Rightarrow> bool" where
  "unwritten_empty b fs =
     (list_all (\<lambda>i. cstr (args_mem b i) = []) [length fs..<256] \<and> cstr (out_mem b) = [])"

definition zero_bytes :: "char list" where
  "zero_bytes = replicate 256 (CHR 0x00)"

definition fresh_buffers :: buffers where
  "fresh_buffers =
     \<lparr>args_mem = (\<lambda>i. zero_bytes), msg_mem = (\<lambda>i. zero_bytes), out_mem = zero_bytes\<rparr>"

definition fresh_heap :: heap where
  "fresh_heap = (\<lambda>q. fresh_buffers)"

definition old_pointers :: "char list" where
  "old_pointers =
     concat (replicate 32
       [CHR 0x10, CHR 0xA3, CHR 0x01, CHR 0x04, CHR 0x55, CHR 0x7F, CHR 0x00, CHR 0x00])"

definition stale_buffers :: buffers where
  "stale_buffers =
     \<lparr>args_mem = (\<lambda>i. if i < 7 then old_pointers else zero_bytes),
      msg_mem = (\<lambda>i. zero_bytes), out_mem = zero_bytes\<rparr>"

definition stale_heap :: heap where
  "stale_heap = (\<lambda>q. if q = [] then stale_buffers else fresh_buffers)"

text \<open>
  The heaps of the lines of a session whose line \<open>e\<close> (counted from 0) is its first
  Execute that dispatches a stored line: the line after it finds the old pointers, the
  other lines fresh memory.
\<close>

definition session_heaps :: "nat \<Rightarrow> nat \<Rightarrow> heap" where
  "session_heaps e j = (if j = Suc e then stale_heap else fresh_heap)"

subsection \<open>Example states\<close>

text \<open>
  A depot \<open>alpha\<close> holding ten widgets with the neighbour \<open>beta\<close>, a session of it as
  \<open>client_connections\<close> starts it, and the same session after the peer's \<open>IM\<close>, holding
  one deferred command.
\<close>

definition example_depot :: Depot where
  "example_depot =
     \<lparr>numColons = 0, depot_portNo = 4000, depot_name = ''alpha'',
      resources = [\<lparr>resource = ''widget'', amount = 10\<rparr>],
      neighbours = [\<lparr>name = ''beta'', portNo = 9999, nb_to = 7, nb_from = 8\<rparr>]\<rparr>"

definition example_session :: ThreadInfo where
  "example_session =
     \<lparr>depot = example_depot, deferred = [], msgCount = 0, ti_portNo = 0, ti_to = 5,
      ti_from = 6, imSent = True, imRecieved = False, sent = [], spawned = []\<rparr>"

definition example_ready :: ThreadInfo where
  "example_ready =
     example_session
       \<lparr>deferred := [\<lparr>key = 7, args = ''Deliver:2:bolt'' @ [CHR 0x0A], complete = False\<rparr>],
        imRecieved := True\<rparr>"

text \<open>
  The session of \<open>example_session\<close> after the lines \<open>IM:9998:gamma\<close>,
  \<open>Defer:7:Deliver:2:bolt\<close> and \<open>Defer:7:Execute:7:x:y\<close>: the second stored line
  is itself an Execute of the key it is stored under.
\<close>

definition example_deferred :: ThreadInfo where
  "example_deferred =
     example_session
       \<lparr>depot := example_depot
          \<lparr>numColons := 5,
           neighbours := [\<lparr>name = ''beta'', portNo = 9999, nb_to = 7, nb_from = 8\<rparr>,
             \<lparr>name = ''gamma'', portNo = 9998, nb_to = 5, nb_from = 6\<rparr>]\<rparr>,
        deferred := [\<lparr>key = 7, args = ''Deliver:2:bolt'' @ [CHR 0x0A], complete = False\<rparr>,
          \<lparr>key = 7, args = ''Execute:7:x:y'' @ [CHR 0x0A], complete = False\<rparr>],
        msgCount := 3, imRecieved := True\<rparr>"

text \<open>
  The same session after the line \<open>Execute:7\<close>: the bolts have been delivered once,
  the stored Execute has been dispatched last and has left \<open>numColons\<close> at 3.
\<close>

definition example_executed :: ThreadInfo where
  "example_executed =
     example_deferred
       \<lparr>depot := (depot example_deferred)
          \<lparr>numColons := 3,
           resources := [\<lparr>resource = ''widget'', amount = 10\<rparr>, \<lparr>resource = ''bolt'', amount = 2\<rparr>]\<rparr>,
        deferred := [\<lparr>key = 7, args = ''Deliver:2:bolt'' @ [CHR 0x0A], complete = True\<rparr>,
          \<lparr>key = 7, args = ''Execute:7:x:y'' @ [CHR 0x0A], complete = True\<rparr>]\<rparr>"

text \<open>A depot whose arrays are not in order, with a good of amount zero.\<close>

definition example_report_depot :: Depot where
  "example_report_depot =
     \<lparr>numColons = 0, depot_portNo = 4000, depot_name = ''alpha'',
      resources = [\<lparr>resource = ''widget'', amount = 5\<rparr>, \<lparr>resource = ''sprocket'', amount = 0\<rparr>,
        \<lparr>resource = ''bolt'', amount = - 2\<rparr>],
      neighbours = [\<lparr>name = ''gamma'', portNo = 9998, nb_to = 9, nb_from = 10\<rparr>,
        \<lparr>name = ''beta'', portNo = 9999, nb_to = 7, nb_from = 8\<rparr>]\<rparr>"

section \<open>Lines, fields and the two inventory loops\<close>

declare validate_input.simps [simp del] do_input.simps [simp del] execute_message.simps [simp del]

lemmas validate_input_Suc = validate_input.simps(2)

lemma plain_Cons: "plain g \<Longrightarrow> \<exists>c g'. g = c # g' \<and> c \<noteq> CHR '':'' \<and> c \<noteq> CHR 0x0A \<and>
   list_all (\<lambda>c. c \<noteq> CHR '':'' \<and> c \<noteq> CHR 0x0A) g'"
  by (cases g) (auto simp: plain_def list_all_iff)

lemma split_args_plain:
  "list_all (\<lambda>c. c \<noteq> CHR '':'' \<and> c \<noteq> CHR 0x0A) f \<Longrightarrow>
   split_args (f @ rest) cur fin n = split_args rest (cur @ f) fin n"
  by (induction f arbitrary: cur) auto

lemma join_fields_Cons: "join_fields ((c # g) # gs) = c # join_fields (g # gs)"
  by (cases gs) auto

lemma split_args_join:
  "list_all (\<lambda>c. c \<noteq> CHR '':'' \<and> c \<noteq> CHR 0x0A) f \<Longrightarrow> list_all plain gs \<Longrightarrow>
   split_args (join_fields (f # gs) @ CHR 0x0A # rest) cur fin n
     = Some (fin @ (cur @ f) # gs, n + int (length gs))"
proof (induction gs arbitrary: f cur fin n)
  case Nil
  then show ?case by (simp add: split_args_plain)
next
  case (Cons g gs)
  from Cons.prems(2) have "plain g" and gs: "list_all plain gs" by simp_all
  from plain_Cons [OF \<open>plain g\<close>] obtain c g' where g: "g = c # g'"
    and c: "c \<noteq> CHR '':''" "c \<noteq> CHR 0x0A"
    and g': "list_all (\<lambda>c. c \<noteq> CHR '':'' \<and> c \<noteq> CHR 0x0A) g'"
    by blast
  have "split_args (join_fields (f # g # gs) @ CHR 0x0A # rest) cur fin n
      = split_args (CHR '':'' # c # join_fields (g' # gs) @ CHR 0x0A # rest) (cur @ f) fin n"
    using Cons.prems(1) by (simp add: g join_fields_Cons split_args_plain)
  also have "\<dots> = split_args (join_fields (g' # gs) @ CHR 0x0A # rest) [c] (fin @ [cur @ f]) (n + 1)"
    using c by simp
  also have "\<dots> = Some ((fin @ [cur @ f]) @ ([c] @ g') # gs, (n + 1) + int (length gs))"
    by (rule Cons.IH [OF g' gs])
  finally show ?case by (simp add: g)
qed

lemma split_args_wire:
  "list_all plain (v # fs) \<Longrightarrow>
   split_args (wire (v # fs) @ rest) [] [] 0 = Some (v # fs, int (length fs))"
  using split_args_join [of v fs rest "[]" "[]" 0] by (simp add: wire_def plain_def list_all_iff)

lemma cstr_plain: "plain f \<Longrightarrow> cstr (f @ bs) = f @ cstr bs"
  unfolding cstr_def by (rule takeWhile_append2) (simp add: plain_def list_all_iff)

lemma cstr_plain_self: "plain f \<Longrightarrow> cstr f = f"
  using cstr_plain [of f "[]"] by (simp add: cstr_def)

text \<open>
  The fields of a line are read as they were sent when the buffer of the last one holds
  a NUL after it; the buffers behind them are read as \<open>malloc\<close> returned them.
\<close>

lemma arg_fields:
  assumes "list_all plain fs" "terminated b fs" "i < length fs"
  shows "arg (args_mem b) fs i = fs ! i"
proof (cases "Suc i < length fs")
  case True
  with assms(1) have "plain (fs ! i)" by (simp add: list_all_length)
  with True show ?thesis by (simp add: arg_def cstr_plain_self)
next
  case False
  with assms(3) have l: "Suc i = length fs" by simp
  then have "fs \<noteq> []" by auto
  then have "last fs = fs ! (length fs - 1)" by (rule last_conv_nth)
  with l [symmetric] have e: "last fs = fs ! i" "length fs - 1 = i" by simp_all
  from assms(1,3) have "plain (fs ! i)" by (simp add: list_all_length)
  moreover from assms(2) have "cstr (drop (length (fs ! i)) (args_mem b i)) = []"
    unfolding terminated_def e .
  ultimately show ?thesis using l by (simp add: arg_def cstr_plain)
qed

lemma arg_inner:
  "list_all plain fs \<Longrightarrow> Suc i < length fs \<Longrightarrow> arg m fs i = fs ! i"
  by (simp add: arg_def cstr_plain_self list_all_length)

lemma arg_unwritten: "length fs \<le> i \<Longrightarrow> arg m fs i = cstr (m i)"
  by (simp add: arg_def)

lemma validate_input_wire:
  "list_all plain (v # fs) \<Longrightarrow>
   validate_input (Suc n) h (wire (v # fs) @ rest) ti =
     (case find (\<lambda>i. arg (args_mem (h [])) (v # fs) 0 = messages ! i) [0, 1, 2, 3, 4, 5, 6] of
        None \<Rightarrow> Some (ti\<lparr>depot := (depot ti)\<lparr>numColons := int (length fs)\<rparr>\<rparr>)
      | Some i \<Rightarrow> do_input n h (arg (args_mem (h [])) (v # fs)) i
          (ti\<lparr>depot := (depot ti)\<lparr>numColons := int (length fs)\<rparr>\<rparr>))"
  by (simp add: validate_input_Suc split_args_wire Let_def)

lemma plain_verbs:
  "plain ''Connect''" "plain ''IM''" "plain ''Deliver''" "plain ''Withdraw''"
  "plain ''Transfer''" "plain ''Defer''" "plain ''Execute''"
  by (simp_all add: plain_def)

lemma verify_name_nonempty: "verify_name g \<noteq> [] \<Longrightarrow> g \<noteq> [] \<and> verify_name g = g"
  by (auto simp: verify_name_def split: if_splits)

lemma inventory_simps [simp]:
  "inventory [] = Map.empty"
  "inventory (r # rs) = (inventory rs)(resource r \<mapsto> amount r)"
  by (simp_all add: inventory_def)

lemma inventory_None: "inventory rs g = None \<longleftrightarrow> list_all (\<lambda>r. resource r \<noteq> g) rs"
  by (induction rs) auto

lemma inventory_append_absent:
  "inventory rs g = None \<Longrightarrow> inventory (rs @ [\<lparr>resource = g, amount = a\<rparr>]) = (inventory rs)(g \<mapsto> a)"
  by (induction rs) (auto split: if_splits)

lemma withdraw_loop_True: "withdraw_loop g a rs True = (rs, True)"
  by (induction rs) auto

lemma withdraw_loop_absent:
  "inventory rs g = None \<Longrightarrow> withdraw_loop g a rs False = (rs, False)"
  by (induction rs) (auto split: if_splits)

lemma withdraw_loop_present:
  "inventory rs g = Some x \<Longrightarrow>
   \<exists>rs'. withdraw_loop g a rs False = (rs', True) \<and>
     inventory rs' = (inventory rs)(g \<mapsto> x - a) \<and> length rs' = length rs"
  by (induction rs) (auto simp: withdraw_loop_True fun_upd_twist split: if_splits)

lemma deliver_loop_True: "deliver_loop g a rs True = (rs, True)"
  by (induction rs) auto

lemma deliver_loop_absent:
  "inventory rs g = None \<Longrightarrow> deliver_loop g a rs False = (rs, False)"
  by (induction rs) (auto split: if_splits)

lemma deliver_loop_present:
  "inventory rs g = Some x \<Longrightarrow>
   \<exists>rs'. deliver_loop g a rs False = (rs', True) \<and>
     inventory rs' = (inventory rs)(g \<mapsto> x + a) \<and> length rs' = length rs"
  by (induction rs) (auto simp: deliver_loop_True fun_upd_twist split: if_splits)

lemma deliver_loop_names:
  "deliver_loop g a rs dl = (rs', dl') \<Longrightarrow>
   map resource rs' = map resource rs \<and> (dl' \<longleftrightarrow> dl \<or> g \<in> set (map resource rs))"
  by (induction rs arbitrary: dl rs' dl') (auto split: if_splits prod.splits)

lemma withdraw_loop_names:
  "withdraw_loop g a rs dl = (rs', dl') \<Longrightarrow>
   map resource rs' = map resource rs \<and> (dl' \<longleftrightarrow> dl \<or> g \<in> set (map resource rs))"
  by (induction rs arbitrary: dl rs' dl') (auto split: if_splits prod.splits)

lemma deliver_message_distinct:
  assumes "distinct (map resource (resources (depot ti)))"
  shows "distinct (map resource (resources (depot (deliver_message a ti))))"
proof -
  obtain rs' dl where l: "deliver_loop (verify_name (a 2)) (verify_num (a 1))
      (resources (depot ti)) False = (rs', dl)"
    by (cases "deliver_loop (verify_name (a 2)) (verify_num (a 1)) (resources (depot ti)) False")
  from deliver_loop_names [OF l] assms show ?thesis
    by (simp add: deliver_message_def Let_def l del: One_nat_def)
qed

lemma withdraw_message_distinct:
  assumes "distinct (map resource (resources (depot ti)))"
  shows "distinct (map resource (resources (depot (withdraw_message a ti))))"
proof -
  obtain rs' dl where l: "withdraw_loop (verify_name (a 2)) (verify_num (a 1))
      (resources (depot ti)) False = (rs', dl)"
    by (cases "withdraw_loop (verify_name (a 2)) (verify_num (a 1)) (resources (depot ti)) False")
  from withdraw_loop_names [OF l] assms show ?thesis
    by (simp add: withdraw_message_def Let_def l del: One_nat_def)
qed

lemma wire3: "wire [a, b, c] = a @ '':'' @ b @ '':'' @ c @ [CHR 0x0A]"
  by (simp add: wire_def)

lemma wire4: "wire [a, b, c, d] = a @ '':'' @ b @ '':'' @ c @ '':'' @ d @ [CHR 0x0A]"
  by (simp add: wire_def)

lemma wire_nonempty: "wire fs \<noteq> []"
  by (simp add: wire_def)

subsection \<open>What \<open>defer_creator\<close> counts\<close>

lemma count_below:
  "length (filter (\<lambda>i. i < l) [a..<b]) = min l b - a"
  by (induction b) auto

lemma nonempty_count:
  assumes "list_all plain fs" "terminated b fs"
    "list_all (\<lambda>i. cstr (args_mem b i) = []) [length fs..<hi]"
  shows "length (filter (\<lambda>i. arg (args_mem b) fs i \<noteq> []) [lo..<hi]) = min (length fs) hi - lo"
proof -
  have "(arg (args_mem b) fs i \<noteq> []) = (i < length fs)" if "i \<in> set [lo..<hi]" for i
  proof (cases "i < length fs")
    case True
    from assms(1) True have "plain (fs ! i)" by (simp add: list_all_length)
    with arg_fields [OF assms(1,2) True] True show ?thesis by (simp add: plain_def)
  next
    case False
    with that assms(3) have "cstr (args_mem b i) = []"
      by (simp add: list_all_iff)
    with False show ?thesis by (simp add: arg_unwritten)
  qed
  then have "filter (\<lambda>i. arg (args_mem b) fs i \<noteq> []) [lo..<hi] = filter (\<lambda>i. i < length fs) [lo..<hi]"
    by (intro filter_cong refl)
  then show ?thesis by (simp only: count_below)
qed

lemma defer_creator_count:
  assumes "list_all plain fs" "terminated b fs" "unwritten_empty b fs"
  shows "length (filter (\<lambda>i. arg (args_mem b) fs i \<noteq> []) [2..<256]) = min (length fs) 256 - 2"
  using assms(3) unfolding unwritten_empty_def
  by (intro nonempty_count [OF assms(1,2)]) (rule conjunct1)

lemma defer_creator_plain:
  assumes "list_all plain (v # ks # fs)" "terminated b (v # ks # fs)"
    "unwritten_empty b (v # ks # fs)"
  shows "defer_creator (arg (args_mem b) (v # ks # fs)) (out_mem b) =
     (if length fs = 3 \<or> length fs = 4 then wire fs else [])"
proof -
  let ?a = "arg (args_mem b) (v # ks # fs)"
  from defer_creator_count [OF assms]
  have n: "length (filter (\<lambda>i. ?a i \<noteq> []) [2..<256]) = min (length fs) 254"
    by simp
  from assms(3) have o: "cstr (out_mem b) = []" by (simp add: unwritten_empty_def)
  have d: "defer_creator ?a (out_mem b) =
     (if min (length fs) 254 = 3 then ?a 2 @ '':'' @ ?a 3 @ '':'' @ ?a 4 @ [CHR 0x0A]
      else if min (length fs) 254 = 4 then
        ?a 2 @ '':'' @ ?a 3 @ '':'' @ ?a 4 @ '':'' @ ?a 5 @ [CHR 0x0A]
      else [])"
    unfolding defer_creator_def n Let_def o by simp
  note f = arg_fields [OF assms(1,2)]
  show ?thesis
  proof (cases "length fs = 3")
    case True
    then obtain x y z where fs: "fs = [x, y, z]"
      by (auto simp: length_Suc_conv numeral_3_eq_3)
    from f [of 2] f [of 3] f [of 4] have "?a 2 = x" "?a 3 = y" "?a 4 = z"
      by (simp_all add: fs)
    with d show ?thesis by (simp add: fs wire3)
  next
    case False
    show ?thesis
    proof (cases "length fs = 4")
      case True
      then obtain x y z w where fs: "fs = [x, y, z, w]"
        by (auto simp: length_Suc_conv numeral_eq_Suc)
      from f [of 2] f [of 3] f [of 4] f [of 5] have "?a 2 = x" "?a 3 = y" "?a 4 = z" "?a 5 = w"
        by (simp_all add: fs)
      with d show ?thesis by (simp add: fs wire4)
    next
      case f4: False
      with False show ?thesis by (simp add: d min_def)
    qed
  qed
qed

subsection \<open>Induction over the calls of \<open>validate_input\<close>\<close>

text \<open>
  A relation between states that is reflexive and transitive and holds across every
  handler, across the assignment of \<open>numColons\<close> and across the marking loop of
  \<open>execute_message\<close> holds across \<open>validate_input\<close>.
\<close>

lemma validate_input_rel:
  assumes refl: "\<And>t. P t t" and trans: "\<And>t u w. P t u \<Longrightarrow> P u w \<Longrightarrow> P t w"
    and colons: "\<And>t nc. P t (t\<lparr>depot := (depot t)\<lparr>numColons := nc\<rparr>\<rparr>)"
    and handlers: "\<And>a t. P t (connect_message a t)" "\<And>a t. P t (im_message a t)"
      "\<And>a t. P t (deliver_message a t)" "\<And>a t. P t (withdraw_message a t)"
      "\<And>a mm t. P t (transfer_message a mm t)" "\<And>a out t. P t (defer_message a out t)"
    and marks: "\<And>k t. P t (t\<lparr>deferred := snd (collect k (deferred t))\<rparr>)"
  shows "validate_input n h l ti = Some ti' \<Longrightarrow> P ti ti'"
proof (induction n arbitrary: h l ti ti')
  case 0
  then show ?case by (simp add: validate_input.simps)
next
  case (Suc n)
  have loop: "execute_loop n h j ls t = Some t' \<Longrightarrow> P t t'" for h j ls t t'
  proof (induction ls arbitrary: t j)
    case Nil
    then show ?case by (simp add: refl)
  next
    case (Cons x xs)
    then obtain u where u: "validate_input n (\<lambda>q. h (j # q)) x t = Some u"
      and r: "execute_loop n h (Suc j) xs u = Some t'"
      by (auto split: option.splits)
    from Suc.IH [OF u] Cons.IH [OF r] show ?case by (rule trans)
  qed
  have exec: "execute_message n h a t = Some t' \<Longrightarrow> P t t'" for h a t t'
    by (auto simp: execute_message.simps refl split: prod.splits if_splits
        dest!: loop intro: trans [OF marks [of t "fst (strtol (a 1))"]])
  have disp: "do_input n h a i t = Some t' \<Longrightarrow> P t t'" for h a i t t'
    by (auto simp: do_input.simps refl handlers split: if_splits dest: exec)
  from Suc.prems show ?case
    by (auto simp: validate_input.simps Let_def split: option.splits prod.splits
        dest!: disp intro: colons trans [OF colons])
qed

lemma validate_input_msgCount:
  "validate_input n h l ti = Some ti' \<Longrightarrow> msgCount ti' = msgCount ti"
  by (rule validate_input_rel [where P = "\<lambda>t u. msgCount u = msgCount t"])
    (auto simp: connect_message_def im_message_def deliver_message_def withdraw_message_def
      transfer_message_def defer_message_def Let_def split: prod.splits option.splits)


subsection \<open>\<open>strcmp\<close> and the order of strings\<close>

text \<open>
  On strings without a NUL byte, \<open>strcmp a b \<le> 0\<close> is the lexicographic order of the
  bytes.
\<close>

lemma of_char_pos: "a \<noteq> CHR 0x00 \<Longrightarrow> 0 < (of_char a :: nat)"
  by (cases a) (auto simp: of_char_def)

lemma strcmp_lexord:
  "CHR 0x00 \<notin> set a \<Longrightarrow> CHR 0x00 \<notin> set b \<Longrightarrow> strcmp a b \<le> 0 \<longleftrightarrow> lexordp_eq a b"
proof (induction a b rule: strcmp.induct)
  case 1
  then show ?case by simp
next
  case (2 b bs)
  then show ?case by simp
next
  case (3 a as)
  then have "0 < (of_char a :: nat)" using of_char_pos [of a] by auto
  then show ?case by simp
next
  case (4 a as b bs)
  show ?case
  proof (cases "a = b")
    case True
    with 4 show ?thesis by simp
  next
    case False
    then have "(of_char a :: nat) \<noteq> of_char b" by simp
    then show ?thesis by (auto simp: less_char_def)
  qed
qed

subsection \<open>The deferred list only grows\<close>

text \<open>
  Across every step of the thread the entries of the deferred list stay where they are,
  unchanged or marked complete, and new entries come behind them.
\<close>

lemma pending_Cons:
  "pending k (d # ds) =
     (if key d = k \<and> \<not> complete d then [0] else []) @ map Suc (pending k ds)"
proof -
  have "[0..<length (d # ds)] = 0 # map Suc [0..<length ds]"
    by (simp add: upt_conv_Cons map_Suc_upt del: upt_Suc)
  then show ?thesis
    by (simp add: pending_def filter_map comp_def del: upt_Suc)
qed

lemma pending_Nil [simp]: "pending k [] = []"
  by (simp add: pending_def)

lemma collect_eq:
  "collect k ds = (map (\<lambda>i. args (ds ! i)) (pending k ds), mark k ds)"
proof (induction ds)
  case Nil
  then show ?case by (simp add: mark_def)
next
  case (Cons d ds)
  then show ?case
    by (auto simp: pending_Cons mark_def comp_def)
qed

lemma pending_mark [simp]: "pending k (mark k ds) = []"
  by (induction ds) (auto simp: pending_Cons mark_def)

lemma unchanged_entry_refl [simp]: "unchanged_entry d d"
  by (simp add: unchanged_entry_def)

lemma unchanged_entry_trans:
  "unchanged_entry d e \<Longrightarrow> unchanged_entry e f \<Longrightarrow> unchanged_entry d f"
  by (auto simp: unchanged_entry_def)

lemma unchanged_mark: "list_all2 unchanged_entry ds (mark k ds)"
  by (induction ds) (auto simp: mark_def unchanged_entry_def)

lemma grows_refl: "grows t t"
  by (simp add: grows_def list_all2_refl)

lemma grows_trans:
  assumes "grows t u" "grows u w"
  shows "grows t w"
proof -
  let ?n = "length (deferred t)"
  from assms have len: "?n \<le> length (deferred u)" "length (deferred u) \<le> length (deferred w)"
    and a: "list_all2 unchanged_entry (deferred t) (take ?n (deferred u))"
    and b: "list_all2 unchanged_entry (deferred u) (take (length (deferred u)) (deferred w))"
    by (simp_all add: grows_def)
  from b have "list_all2 unchanged_entry (take ?n (deferred u))
      (take ?n (take (length (deferred u)) (deferred w)))"
    by (rule list_all2_takeI)
  with len have "list_all2 unchanged_entry (take ?n (deferred u)) (take ?n (deferred w))"
    by (simp add: min_def)
  with a have "list_all2 unchanged_entry (deferred t) (take ?n (deferred w))"
    by (rule list_all2_trans [rotated 1]) (rule unchanged_entry_trans)
  with len show ?thesis by (simp add: grows_def)
qed

lemma deferred_handlers [simp]:
  "deferred (connect_message a t) = deferred t"
  "deferred (im_message a t) = deferred t"
  "deferred (deliver_message a t) = deferred t"
  "deferred (withdraw_message a t) = deferred t"
  "deferred (transfer_message a mm t) = deferred t"
  by (simp_all add: connect_message_def im_message_def deliver_message_def withdraw_message_def
      transfer_message_def Let_def split: prod.splits option.splits)

lemma grows_defer: "grows t (defer_message a out t)"
  by (simp add: defer_message_def Let_def grows_def list_all2_refl split: prod.splits)

lemma length_mark [simp]: "length (mark k ds) = length ds"
  by (simp add: mark_def)

lemma grows_marks: "grows t (t\<lparr>deferred := snd (collect k (deferred t))\<rparr>)"
  by (simp add: collect_eq grows_def unchanged_mark)

lemma grows_complete:
  assumes "grows t u" "i < length (deferred t)" "complete (deferred t ! i)"
  shows "i < length (deferred u) \<and> deferred u ! i = deferred t ! i"
proof -
  from assms(1,2) have "unchanged_entry (deferred t ! i) (deferred u ! i)" and l: "i < length (deferred u)"
    by (auto simp: grows_def dest: list_all2_nthD)
  with assms(3) show ?thesis by (simp add: unchanged_entry_def)
qed

lemma pending_set: "i \<in> set (pending k ds) \<longleftrightarrow> i < length ds \<and> key (ds ! i) = k \<and> \<not> complete (ds ! i)"
  by (auto simp: pending_def)

lemma reaches_trans: "reaches u w \<Longrightarrow> reaches t u \<Longrightarrow> reaches t w"
  by (induction rule: reaches.induct) (auto intro: reaches.intros)

lemma validate_input_reaches: "validate_input n h l t = Some u \<Longrightarrow> reaches t u"
  by (rule validate_input_rel [where P = reaches])
    (auto intro: reaches.intros reaches_trans [rotated])

lemma execute_loop_reaches: "execute_loop n h j ls t = Some u \<Longrightarrow> reaches t u"
proof (induction ls arbitrary: t j)
  case Nil
  then show ?case by (simp add: reaches_refl)
next
  case (Cons l ls)
  then obtain w where "validate_input n (\<lambda>q. h (j # q)) l t = Some w"
    "execute_loop n h (Suc j) ls w = Some u"
    by (auto split: option.splits)
  with Cons.IH show ?case by (blast intro: reaches_trans validate_input_reaches)
qed

lemma reaches_grows: "reaches t u \<Longrightarrow> grows t u"
proof (induction rule: reaches.induct)
  case (reaches_refl t)
  then show ?case by (rule grows_refl)
next
  case (reaches_defer t u a out)
  then show ?case by (blast intro: grows_trans grows_defer)
next
  case (reaches_marks t u k)
  then show ?case by (blast intro: grows_trans grows_marks)
qed (simp_all add: grows_def)

lemma execute_message_eq:
  assumes "strtol (a 1) = (k, [])" "0 < k"
  shows "execute_message n h a ti =
     execute_loop n h 0 (map (\<lambda>i. args (deferred ti ! i)) (pending k (deferred ti)))
       (ti\<lparr>deferred := mark k (deferred ti)\<rparr>)"
  using assms by (simp add: execute_message.simps collect_eq)

lemma mark_nth:
  "i \<in> set (pending k ds) \<Longrightarrow> mark k ds ! i = (ds ! i)\<lparr>complete := True\<rparr>"
  by (simp add: pending_set mark_def)

subsection \<open>Deliver and Withdraw lines read as sent\<close>

text \<open>
  When the buffer of the good holds a NUL after the name, a Withdraw line subtracts from
  the first entry of the good or adds the entry \<open>(good, - qty)\<close>, and a Deliver line
  followed by the Withdraw line of the same quantity and good leaves every quantity as
  it was.
\<close>

lemma withdraw_loop_split:
  "inventory rs g = Some x \<Longrightarrow>
   \<exists>pre r post. rs = pre @ r # post \<and> list_all (\<lambda>e. resource e \<noteq> g) pre \<and>
     resource r = g \<and> amount r = x \<and>
     withdraw_loop g a rs False = (pre @ r\<lparr>amount := x - a\<rparr> # post, True)"
proof (induction rs)
  case Nil
  then show ?case by simp
next
  case (Cons r0 rs)
  show ?case
  proof (cases "resource r0 = g")
    case True
    with Cons.prems have "r0 # rs = [] @ r0 # rs \<and> list_all (\<lambda>e. resource e \<noteq> g) [] \<and>
       resource r0 = g \<and> amount r0 = x \<and>
       withdraw_loop g a (r0 # rs) False = ([] @ r0\<lparr>amount := x - a\<rparr> # rs, True)"
      by (simp add: withdraw_loop_True)
    then show ?thesis by blast
  next
    case False
    with Cons.prems have "inventory rs g = Some x" by simp
    from Cons.IH [OF this] obtain pre r post where
      "rs = pre @ r # post" "list_all (\<lambda>e. resource e \<noteq> g) pre" "resource r = g" "amount r = x"
      "withdraw_loop g a rs False = (pre @ r\<lparr>amount := x - a\<rparr> # post, True)"
      by blast
    with False have "r0 # rs = (r0 # pre) @ r # post \<and> list_all (\<lambda>e. resource e \<noteq> g) (r0 # pre) \<and>
       resource r = g \<and> amount r = x \<and>
       withdraw_loop g a (r0 # rs) False = ((r0 # pre) @ r\<lparr>amount := x - a\<rparr> # post, True)"
      by auto
    then show ?thesis by blast
  qed
qed

lemma withdraw_message_exact:
  assumes "a 1 = q" "a 2 = g" "0 <s verify_num q" "verify_name g \<noteq> []"
    "numColons (depot ti) = 2" and rs: "resources (depot ti) = rs"
  shows "\<exists>rs'. withdraw_message a ti = ti\<lparr>depot := (depot ti)\<lparr>resources := rs'\<rparr>\<rparr> \<and>
     inventory rs' = spec_withdraw g (verify_num q) (inventory rs) \<and>
     (case inventory rs g of
        None \<Rightarrow> rs' = rs @ [\<lparr>resource = g, amount = - verify_num q\<rparr>]
      | Some x \<Rightarrow>
          (\<exists>pre r post. rs = pre @ r # post \<and> list_all (\<lambda>e. resource e \<noteq> g) pre \<and>
             resource r = g \<and> rs' = pre @ r\<lparr>amount := amount r - verify_num q\<rparr> # post))"
proof (cases "inventory rs g")
  case None
  then show ?thesis
    using assms verify_name_nonempty [of g]
    by (simp add: withdraw_message_def Let_def withdraw_loop_absent
        spec_withdraw_def inventory_append_absent del: One_nat_def)
next
  case (Some x)
  from withdraw_loop_split [OF Some, of "verify_num q"] obtain pre r post where
    s: "rs = pre @ r # post" "list_all (\<lambda>e. resource e \<noteq> g) pre" "resource r = g" "amount r = x"
    and w: "withdraw_loop g (verify_num q) rs False = (pre @ r\<lparr>amount := x - verify_num q\<rparr> # post, True)"
    by blast
  from withdraw_loop_present [OF Some, of "verify_num q"] w
  have i: "inventory (pre @ r\<lparr>amount := x - verify_num q\<rparr> # post) = (inventory rs)(g \<mapsto> x - verify_num q)"
    by simp
  have "withdraw_message a ti =
      ti\<lparr>depot := (depot ti)\<lparr>resources := pre @ r\<lparr>amount := x - verify_num q\<rparr> # post\<rparr>\<rparr>"
    using assms verify_name_nonempty [of g] w
    by (simp add: withdraw_message_def Let_def del: One_nat_def)
  moreover have "inventory (pre @ r\<lparr>amount := x - verify_num q\<rparr> # post) =
      spec_withdraw g (verify_num q) (inventory rs)"
    using i Some by (simp add: spec_withdraw_def)
  moreover have "\<exists>pre' r' post'. rs = pre' @ r' # post' \<and> list_all (\<lambda>e. resource e \<noteq> g) pre' \<and>
       resource r' = g \<and>
       pre @ r\<lparr>amount := x - verify_num q\<rparr> # post = pre' @ r'\<lparr>amount := amount r' - verify_num q\<rparr> # post'"
    using s by blast
  ultimately show ?thesis using Some
    by (intro exI [of _ "pre @ r\<lparr>amount := x - verify_num q\<rparr> # post"]) simp
qed

lemma deliver_message_resources:
  assumes "a 1 = q" "a 2 = g" "0 <s verify_num q" "verify_name g \<noteq> []"
    "numColons (depot ti) = 2" and rs: "resources (depot ti) = rs"
  shows "\<exists>rs'. deliver_message a ti = ti\<lparr>depot := (depot ti)\<lparr>resources := rs'\<rparr>\<rparr> \<and>
     inventory rs' = spec_deliver g (verify_num q) (inventory rs)"
proof (cases "inventory rs g")
  case None
  then show ?thesis
    using assms verify_name_nonempty [of g]
    by (intro exI [of _ "rs @ [\<lparr>resource = g, amount = verify_num q\<rparr>]"])
      (simp add: deliver_message_def Let_def deliver_loop_absent
        spec_deliver_def inventory_append_absent del: One_nat_def)
next
  case (Some x)
  from deliver_loop_present [OF Some, of "verify_num q"] obtain rs' where
    "deliver_loop g (verify_num q) rs False = (rs', True)"
    "inventory rs' = (inventory rs)(g \<mapsto> x + verify_num q)"
    by blast
  then show ?thesis
    using assms verify_name_nonempty [of g] Some
    by (intro exI [of _ rs']) (simp add: deliver_message_def Let_def spec_deliver_def del: One_nat_def)
qed

lemma validate_input_three:
  assumes "list_all plain [v, q, g]" "terminated (h []) [v, q, g]"
    and "find (\<lambda>i. v = messages ! i) [0, 1, 2, 3, 4, 5, 6] = Some i"
  shows "\<exists>a. a 0 = v \<and> a 1 = q \<and> a 2 = g \<and>
     validate_input (Suc n) h (wire [v, q, g] @ rest) ti =
       do_input n h a i (ti\<lparr>depot := (depot ti)\<lparr>numColons := 2\<rparr>\<rparr>)"
proof -
  let ?a = "arg (args_mem (h [])) [v, q, g]"
  note f = arg_fields [OF assms(1,2)]
  from f [of 0] f [of 1] f [of 2] have a: "?a 0 = v" "?a 1 = q" "?a 2 = g" by simp_all
  from assms(1) have "validate_input (Suc n) h (wire [v, q, g] @ rest) ti =
       do_input n h ?a i (ti\<lparr>depot := (depot ti)\<lparr>numColons := 2\<rparr>\<rparr>)"
    by (simp only: validate_input_wire a assms(3)) simp
  with a show ?thesis by blast
qed

lemma withdraw_line_terminated:
  assumes "list_all plain [q, g]" "0 <s verify_num q" "verify_name g \<noteq> []"
    and "terminated (h []) [''Withdraw'', q, g]"
  shows "\<exists>rs'. validate_input (Suc n) h (wire [''Withdraw'', q, g] @ rest) ti =
             Some (ti\<lparr>depot := (depot ti)\<lparr>numColons := 2, resources := rs'\<rparr>\<rparr>) \<and>
     inventory rs' = spec_withdraw g (verify_num q) (inventory (resources (depot ti))) \<and>
     (case inventory (resources (depot ti)) g of
        None \<Rightarrow> rs' = resources (depot ti) @ [\<lparr>resource = g, amount = - verify_num q\<rparr>]
      | Some x \<Rightarrow>
          (\<exists>pre r post. resources (depot ti) = pre @ r # post \<and>
             list_all (\<lambda>e. resource e \<noteq> g) pre \<and> resource r = g \<and>
             rs' = pre @ r\<lparr>amount := amount r - verify_num q\<rparr> # post))"
proof -
  let ?t = "ti\<lparr>depot := (depot ti)\<lparr>numColons := 2\<rparr>\<rparr>"
  have p: "list_all plain [''Withdraw'', q, g]" using assms(1) by (simp add: plain_verbs)
  have "find (\<lambda>i. ''Withdraw'' = messages ! i) [0, 1, 2, 3, 4, 5, 6] = Some 3"
    by (simp add: messages_def)
  from validate_input_three [where h = h and n = n and rest = rest and ti = ti, OF p assms(4) this]
  obtain a where
    a: "a 1 = q" "a 2 = g"
    and v: "validate_input (Suc n) h (wire [''Withdraw'', q, g] @ rest) ti = Some (withdraw_message a ?t)"
    by (auto simp: do_input.simps)
  from withdraw_message_exact [OF a assms(2,3), of ?t "resources (depot ti)"] obtain rs' where
    "withdraw_message a ?t = ?t\<lparr>depot := (depot ?t)\<lparr>resources := rs'\<rparr>\<rparr>"
    "inventory rs' = spec_withdraw g (verify_num q) (inventory (resources (depot ti)))"
    "case inventory (resources (depot ti)) g of
        None \<Rightarrow> rs' = resources (depot ti) @ [\<lparr>resource = g, amount = - verify_num q\<rparr>]
      | Some x \<Rightarrow>
          (\<exists>pre r post. resources (depot ti) = pre @ r # post \<and>
             list_all (\<lambda>e. resource e \<noteq> g) pre \<and> resource r = g \<and>
             rs' = pre @ r\<lparr>amount := amount r - verify_num q\<rparr> # post)"
    by auto
  then show ?thesis
    using v by (intro exI [of _ rs']) simp
qed

lemma deliver_then_withdraw_terminated:
  assumes "list_all plain [q, g]" "0 <s verify_num q" "verify_name g \<noteq> []"
    and "terminated (h1 []) [''Deliver'', q, g]" "terminated (h2 []) [''Withdraw'', q, g]"
  shows "\<exists>ti1 ti2. validate_input (Suc n) h1 (wire [''Deliver'', q, g] @ rest1) ti = Some ti1 \<and>
     validate_input (Suc m) h2 (wire [''Withdraw'', q, g] @ rest2) ti1 = Some ti2 \<and>
     quantity x (resources (depot ti2)) = quantity x (resources (depot ti))"
proof -
  let ?t = "ti\<lparr>depot := (depot ti)\<lparr>numColons := 2\<rparr>\<rparr>"
  have pd: "list_all plain [''Deliver'', q, g]" using assms(1) by (simp add: plain_verbs)
  have "find (\<lambda>i. ''Deliver'' = messages ! i) [0, 1, 2, 3, 4, 5, 6] = Some 2"
    by (simp add: messages_def)
  from validate_input_three [where h = h1 and n = n and rest = rest1 and ti = ti, OF pd assms(4) this]
  obtain a where
    a: "a 1 = q" "a 2 = g"
    and v: "validate_input (Suc n) h1 (wire [''Deliver'', q, g] @ rest1) ti = Some (deliver_message a ?t)"
    by (auto simp: do_input.simps)
  from deliver_message_resources [OF a assms(2,3), of ?t "resources (depot ti)"] obtain rs1 where
    d: "deliver_message a ?t = ?t\<lparr>depot := (depot ?t)\<lparr>resources := rs1\<rparr>\<rparr>"
    and i1: "inventory rs1 = spec_deliver g (verify_num q) (inventory (resources (depot ti)))"
    by auto
  let ?t1 = "?t\<lparr>depot := (depot ?t)\<lparr>resources := rs1\<rparr>\<rparr>"
  from withdraw_line_terminated [where h = h2 and n = m and rest = rest2 and ti = ?t1,
      OF assms(1-3,5)]
  obtain rs2 where
    w: "validate_input (Suc m) h2 (wire [''Withdraw'', q, g] @ rest2) ?t1 =
        Some (?t1\<lparr>depot := (depot ?t1)\<lparr>numColons := 2, resources := rs2\<rparr>\<rparr>)"
    and i2: "inventory rs2 = spec_withdraw g (verify_num q) (inventory rs1)"
    by auto
  have "quantity x rs2 = quantity x (resources (depot ti))"
    by (simp add: quantity_def i1 i2 spec_deliver_def spec_withdraw_def split: option.splits)
  then show ?thesis
    using v d w by simp
qed


section \<open>Start-up quantities\<close>

lemma strtol_zero: "strtol ''0'' = (0, [])"
  by (simp add: strtol_def isspace_def isdigit_def LONG_MAX_def)

lemma is_amount_valid_zero: "is_amount_valid ''0'' = Inl (Exit 3)"
  by (simp add: is_amount_valid_def atoi_def strtol_zero)

lemma is_amount_valid_rejects:
  "snd (strtol q) \<noteq> [] \<or> fst (strtol q) < 0 \<Longrightarrow> is_amount_valid q = Inl (Exit 3)"
  by (auto simp: is_amount_valid_def split: prod.splits)

text \<open>
  C1. Started as \<open>depot alpha widget 5 sprocket 0\<close>, the process exits with code 3:
  \<open>is_amount_valid\<close> tests \<open>atoi(amount)\<close> for truth, and \<open>atoi\<close> of \<open>0\<close> is 0, although
  the same condition admits zero by \<open>output >= 0\<close>. The zero quantity the specification
  permits at start-up is refused.
\<close>

theorem startup_zero_quantity_exits:
  "main_startup port [''alpha'', ''widget'', ''5'', ''sprocket'', ''0''] = Inl (Exit 3)"
  by (simp add: main_startup_def gather_resources_def is_name_valid_def invalid_chars_def
      is_amount_valid_def atoi_def strtol_def isspace_def isdigit_def LONG_MAX_def)

text \<open>
  C2. Started as \<open>depot alpha widget 5 widget 3\<close>, the depot holds two entries for
  \<open>widget\<close>: \<open>gather_resources\<close> appends every pair and never looks for an entry of
  the same good, as the loops of \<open>deliver_message\<close> and \<open>withdraw_message\<close> do
  (\<open>deliver_message_distinct\<close>, \<open>withdraw_message_distinct\<close>: they keep the names
  distinct once they are).
\<close>

theorem startup_duplicate_goods:
  "main_startup port [''alpha'', ''widget'', ''5'', ''widget'', ''3''] =
     Inr \<lparr>numColons = 0, depot_portNo = port, depot_name = ''alpha'',
          resources = [\<lparr>resource = ''widget'', amount = 5\<rparr>, \<lparr>resource = ''widget'', amount = 3\<rparr>],
          neighbours = []\<rparr>"
  by (simp add: main_startup_def gather_resources_def is_name_valid_def invalid_chars_def
      is_amount_valid_def atoi_def strtol_def isspace_def isdigit_def LONG_MAX_def)

section \<open>Deliver and Withdraw\<close>

text \<open>
  C8. \<open>validate_input\<close> writes a NUL after a field only when a colon follows it: the
  good of a Withdraw line, its last field, is read up to the first NUL its buffer
  happens to hold. In the session below the line \<open>Withdraw:1:bolt\<close> comes right after
  an Execute that has delivered two bolts, and its buffers hold old pointers: nothing is
  subtracted from the entry \<open>bolt\<close>, which keeps its amount 2, and an entry of \<open>- 1\<close>
  is added for the name \<open>bolt\<close> followed by two bytes of an old pointer. (When the buffer
  holds a NUL after the good, the line subtracts from the first entry of the good or
  adds \<open>(good, - qty)\<close>: \<open>withdraw_line_terminated\<close>.)
\<close>

theorem withdraw_after_execute_misses_good:
  "client_loop 2 (session_heaps 2) 0 zero_bytes
     [''IM:9998:gamma\<newline>'', ''Defer:7:Deliver:2:bolt\<newline>'', ''Execute:7\<newline>'',
      ''Withdraw:1:bolt\<newline>''] example_session =
     Some (example_session
       \<lparr>depot := example_depot
          \<lparr>numColons := 2,
           resources := [\<lparr>resource = ''widget'', amount = 10\<rparr>, \<lparr>resource = ''bolt'', amount = 2\<rparr>,
             \<lparr>resource = ''bolt'' @ [CHR 0x55, CHR 0x7F], amount = - 1\<rparr>],
           neighbours := [\<lparr>name = ''beta'', portNo = 9999, nb_to = 7, nb_from = 8\<rparr>,
             \<lparr>name = ''gamma'', portNo = 9998, nb_to = 5, nb_from = 6\<rparr>]\<rparr>,
        deferred := [\<lparr>key = 7, args = ''Deliver:2:bolt\<newline>'', complete = True\<rparr>],
        msgCount := 4, imRecieved := True\<rparr>)"
  by code_simp

text \<open>
  C7. For the same reason a Deliver line followed by the Withdraw line of the same
  quantity and good does not leave the quantities as they were when the Deliver line
  comes right after an Execute that has dispatched a stored line: \<open>Deliver:3:nut\<close>
  adds three of a good named \<open>nut\<close> followed by three bytes of an old pointer,
  \<open>Withdraw:3:nut\<close>, read from fresh buffers, adds an entry of \<open>- 3\<close> for \<open>nut\<close>, and
  the quantity of \<open>nut\<close> ends at \<open>- 3\<close> where it was 0. (When both buffers hold a NUL
  after the good, every quantity is as before: \<open>deliver_then_withdraw_terminated\<close>.)
\<close>

theorem deliver_withdraw_after_execute_differ:
  "client_loop 2 (session_heaps 2) 0 zero_bytes
     [''IM:9998:gamma\<newline>'', ''Defer:7:Deliver:2:bolt\<newline>'', ''Execute:7\<newline>'',
      ''Deliver:3:nut\<newline>'', ''Withdraw:3:nut\<newline>''] example_session =
     Some (example_session
       \<lparr>depot := example_depot
          \<lparr>numColons := 2,
           resources := [\<lparr>resource = ''widget'', amount = 10\<rparr>, \<lparr>resource = ''bolt'', amount = 2\<rparr>,
             \<lparr>resource = ''nut'' @ [CHR 0x04, CHR 0x55, CHR 0x7F], amount = 3\<rparr>,
             \<lparr>resource = ''nut'', amount = - 3\<rparr>],
           neighbours := [\<lparr>name = ''beta'', portNo = 9999, nb_to = 7, nb_from = 8\<rparr>,
             \<lparr>name = ''gamma'', portNo = 9998, nb_to = 5, nb_from = 6\<rparr>]\<rparr>,
        deferred := [\<lparr>key = 7, args = ''Deliver:2:bolt\<newline>'', complete = True\<rparr>],
        msgCount := 5, imRecieved := True\<rparr>) \<and>
   quantity ''nut'' [\<lparr>resource = ''widget'', amount = 10\<rparr>, \<lparr>resource = ''bolt'', amount = 2\<rparr>,
       \<lparr>resource = ''nut'' @ [CHR 0x04, CHR 0x55, CHR 0x7F], amount = 3\<rparr>,
       \<lparr>resource = ''nut'', amount = - 3\<rparr>] = - 3 \<and>
   quantity ''nut'' (resources (depot example_session)) = 0"
  by code_simp

section \<open>Defer\<close>

text \<open>
  C3, as the specification states it, fails: \<open>Defer:5:Connect:1234\<close> and \<open>Defer:5:Execute:7\<close>
  leave the deferred list empty, also in fresh memory, because \<open>defer_creator\<close> returns
  the empty string unless it counts three or four non-empty fields after the key.
\<close>

theorem defer_connect_execute_not_stored:
  "validate_input 1 fresh_heap ''Defer:5:Connect:1234\<newline>'' example_session =
     Some (example_session\<lparr>depot := example_depot\<lparr>numColons := 3\<rparr>\<rparr>) \<and>
   validate_input 1 fresh_heap ''Defer:5:Execute:7\<newline>'' example_session =
     Some (example_session\<lparr>depot := example_depot\<lparr>numColons := 3\<rparr>\<rparr>) \<and>
   deferred (example_session\<lparr>depot := example_depot\<lparr>numColons := 3\<rparr>\<rparr>) = []"
  by code_simp

text \<open>
  C3, amended. A Defer line with a key that \<open>strtol\<close> reads completely as a positive
  number and with inner fields that are non-empty and hold no colon and no NUL, processed
  with buffers that hold a NUL where the last field of the line ends and at the start of
  every buffer the line does not reach (\<open>terminated\<close>, \<open>unwritten_empty\<close>; fresh
  memory is so): when there are three or four inner fields, the inner command is appended
  to the deferred list as it is on the wire (the fields joined by colons, then the
  newline) with \<open>complete = False\<close>; with any other number of inner fields nothing is
  stored. In both cases nothing else changes but \<open>numColons\<close>.
\<close>

theorem defer_stores_three_or_four_fields:
  assumes "list_all plain (ks # fs)" "strtol ks = (k, [])" "0 < k"
    and "terminated (h []) (''Defer'' # ks # fs)" "unwritten_empty (h []) (''Defer'' # ks # fs)"
  shows "validate_input (Suc n) h (wire (''Defer'' # ks # fs) @ rest) ti =
     Some (if length fs = 3 \<or> length fs = 4
           then ti\<lparr>depot := (depot ti)\<lparr>numColons := int (length fs) + 1\<rparr>,
                   deferred := deferred ti @ [\<lparr>key = k, args = wire fs, complete = False\<rparr>]\<rparr>
           else ti\<lparr>depot := (depot ti)\<lparr>numColons := int (length fs) + 1\<rparr>\<rparr>)"
proof -
  let ?a = "arg (args_mem (h [])) (''Defer'' # ks # fs)"
  have p: "list_all plain (''Defer'' # ks # fs)" using assms(1) by (simp add: plain_verbs)
  note f = arg_fields [OF p assms(4)]
  from f [of 0] f [of 1] have a: "?a 0 = ''Defer''" "?a 1 = ks" by simp_all
  have m: "find (\<lambda>i. ''Defer'' = messages ! i) [0, 1, 2, 3, 4, 5, 6] = Some 5"
    by (simp add: messages_def)
  have "validate_input (Suc n) h (wire (''Defer'' # ks # fs) @ rest) ti =
      Some (defer_message ?a (out_mem (h [])) (ti\<lparr>depot := (depot ti)\<lparr>numColons := int (length fs) + 1\<rparr>\<rparr>))"
    using p by (simp only: validate_input_wire a m) (simp add: do_input.simps add.commute)
  moreover have "defer_creator ?a (out_mem (h [])) = (if length fs = 3 \<or> length fs = 4 then wire fs else [])"
    by (rule defer_creator_plain [OF p assms(4,5)])
  ultimately show ?thesis
    using assms(2,3) by (simp add: defer_message_def a wire_nonempty del: One_nat_def)
qed

theorem defer_stores_three_or_four_fields_witness:
  "list_all plain [''5'', ''Deliver'', ''3'', ''bolt''] \<and> strtol ''5'' = (5, []) \<and> (0 :: int) < 5 \<and>
   terminated (fresh_heap []) [''Defer'', ''5'', ''Deliver'', ''3'', ''bolt''] \<and>
   unwritten_empty (fresh_heap []) [''Defer'', ''5'', ''Deliver'', ''3'', ''bolt''] \<and>
   validate_input 1 fresh_heap (wire [''Defer'', ''5'', ''Deliver'', ''3'', ''bolt'']) example_session =
     Some (example_session\<lparr>depot := example_depot\<lparr>numColons := 4\<rparr>,
        deferred := [\<lparr>key = 5, args = ''Deliver:3:bolt'' @ [CHR 0x0A], complete = False\<rparr>]\<rparr>)"
proof -
  have h1: "list_all plain [''5'', ''Deliver'', ''3'', ''bolt'']" by (simp add: plain_def)
  have h2: "strtol ''5'' = (5, [])" by code_simp
  have h3: "(0 :: int) < 5" by simp
  have h4: "terminated (fresh_heap []) [''Defer'', ''5'', ''Deliver'', ''3'', ''bolt'']" by code_simp
  have h5: "unwritten_empty (fresh_heap []) [''Defer'', ''5'', ''Deliver'', ''3'', ''bolt'']"
    by code_simp
  from defer_stores_three_or_four_fields [where h = fresh_heap and n = 0 and ti = example_session
      and rest = "[]", OF h1 h2 h3 h4 h5]
  show ?thesis using h1 h2 h4 h5 by (simp add: wire3 example_session_def)
qed

text \<open>
  In buffers that hold old pointers a line of the same shape is not stored: after the
  Execute below, the buffers 5 and 6 of the line \<open>Defer:8:Deliver:1:cog\<close> are not
  empty, \<open>defer_creator\<close> counts five strings and returns the empty string.
\<close>

lemma defer_after_execute_not_stored:
  "client_loop 2 (session_heaps 2) 0 zero_bytes
     [''IM:9998:gamma\<newline>'', ''Defer:7:Deliver:2:bolt\<newline>'', ''Execute:7\<newline>'',
      ''Defer:8:Deliver:1:cog\<newline>''] example_session =
     Some (example_session
       \<lparr>depot := example_depot
          \<lparr>numColons := 4,
           resources := [\<lparr>resource = ''widget'', amount = 10\<rparr>, \<lparr>resource = ''bolt'', amount = 2\<rparr>],
           neighbours := [\<lparr>name = ''beta'', portNo = 9999, nb_to = 7, nb_from = 8\<rparr>,
             \<lparr>name = ''gamma'', portNo = 9998, nb_to = 5, nb_from = 6\<rparr>]\<rparr>,
        deferred := [\<lparr>key = 7, args = ''Deliver:2:bolt\<newline>'', complete = True\<rparr>],
        msgCount := 4, imRecieved := True\<rparr>)"
  by code_simp

section \<open>Lines with extra fields\<close>

text \<open>
  C4. \<open>connect_message\<close>, \<open>execute_message\<close> and \<open>transfer_message\<close> do not compare
  \<open>numColons\<close> with the arity of their verb (\<open>im_message\<close>, \<open>deliver_message\<close> and
  \<open>withdraw_message\<close> do): in a session that has received its \<open>IM\<close>, a Connect line
  with an extra field starts a connection, an Execute line with an extra field runs the
  deferred command stored under the key, and a Transfer line with an extra field
  withdraws and writes the Deliver line to the neighbour.
\<close>

theorem extra_fields_are_acted_on:
  "validate_input 1 fresh_heap ''Connect:1234:extra\<newline>'' example_ready =
     Some (example_ready\<lparr>depot := example_depot\<lparr>numColons := 2\<rparr>, ti_portNo := 1234,
        spawned := [1234]\<rparr>) \<and>
   validate_input 2 fresh_heap ''Execute:7:extra\<newline>'' example_ready =
     Some (example_ready\<lparr>depot := example_depot\<lparr>numColons := 2,
          resources := [\<lparr>resource = ''widget'', amount = 10\<rparr>, \<lparr>resource = ''bolt'', amount = 2\<rparr>]\<rparr>,
        deferred := [\<lparr>key = 7, args = ''Deliver:2:bolt\<newline>'', complete = True\<rparr>]\<rparr>) \<and>
   validate_input 1 fresh_heap ''Transfer:4:widget:beta:extra\<newline>'' example_ready =
     Some (example_ready\<lparr>depot := example_depot\<lparr>numColons := 2,
          resources := [\<lparr>resource = ''widget'', amount = 6\<rparr>]\<rparr>,
        sent := [(7, ''Deliver:4:widget\<newline>'')]\<rparr>)"
  by code_simp

section \<open>An IM of a known neighbour\<close>

text \<open>
  C5, as the specification states it, fails: the session of \<open>example_session\<close> receives the \<open>IM\<close>
  of the neighbour \<open>beta\<close> it already knows and then three Deliver lines, all in fresh
  memory. The flag \<open>imRecieved\<close> is still unset at the end, and the loop has ended
  before the third line it read: only one Deliver has been processed.
\<close>

theorem duplicate_im_session_ends:
  "client_loop 1 (\<lambda>j. fresh_heap) 0 zero_bytes
     [''IM:9999:beta\<newline>'', ''Deliver:1:a\<newline>'', ''Deliver:1:a\<newline>'',
      ''Deliver:1:a\<newline>''] example_session =
     Some (example_session\<lparr>depot := example_depot\<lparr>numColons := 2,
          resources := [\<lparr>resource = ''widget'', amount = 10\<rparr>, \<lparr>resource = ''a'', amount = 1\<rparr>]\<rparr>,
        msgCount := 2\<rparr>) \<and>
   imRecieved example_session = False"
  by code_simp

text \<open>
  C5, amended. In a session that has not received an \<open>IM\<close>, at any line of it, a valid
  \<open>IM\<close> line whose name or port a neighbour already has, read from a buffer that holds a
  NUL where the name ends (\<open>terminated\<close>), changes nothing but \<open>numColons\<close>: no
  neighbour is added and \<open>imRecieved\<close> stays unset. The session is then subject to the
  check of \<open>client_connections\<close> like any session without \<open>IM\<close>: when that line is the
  first one and the second line leaves \<open>imRecieved\<close> unset too, the loop ends on
  reading the third line, which is not processed.
\<close>

theorem duplicate_im_not_received:
  assumes "list_all plain [p, nm]" "verify_num p \<noteq> 0" "verify_name nm \<noteq> []" "\<not> imRecieved ti"
    and dup: "list_ex (\<lambda>nb. nm = name nb \<or> verify_num p = portNo nb) (neighbours (depot ti))"
    and mem: "terminated (h []) [''IM'', p, nm]"
  shows "validate_input (Suc n) h (wire [''IM'', p, nm] @ rest) ti =
       Some (ti\<lparr>depot := (depot ti)\<lparr>numColons := 2\<rparr>\<rparr>) \<and>
     (msgCount ti = 0 \<and> hs 0 = h \<and>
      validate_input (Suc n) (hs 1) (fgets l2 (fgets (wire [''IM'', p, nm]) buf))
        (ti\<lparr>depot := (depot ti)\<lparr>numColons := 2\<rparr>, msgCount := 1\<rparr>) = Some ti2 \<and>
      \<not> imRecieved ti2 \<longrightarrow>
      client_loop (Suc n) hs 0 buf (wire [''IM'', p, nm] # l2 # l3 # ls) ti =
        Some (ti2\<lparr>msgCount := 2\<rparr>))"
proof -
  let ?t = "ti\<lparr>depot := (depot ti)\<lparr>numColons := 2\<rparr>\<rparr>"
  have pl: "list_all plain [''IM'', p, nm]" using assms(1) by (simp add: plain_verbs)
  have "find (\<lambda>i. ''IM'' = messages ! i) [0, 1, 2, 3, 4, 5, 6] = Some 1"
    by (simp add: messages_def)
  from validate_input_three [where h = h and n = n and ti = ti, OF pl mem this]
  have "\<exists>a. a 1 = p \<and> a 2 = nm \<and>
      validate_input (Suc n) h (wire [''IM'', p, nm] @ r) ti = Some (im_message a ?t)" for r
    by (auto simp: do_input.simps)
  moreover have "im_message a ?t = ?t" if "a 1 = p" "a 2 = nm" for a
    using that assms(2-5) verify_name_nonempty [of nm]
    by (simp add: im_message_def Let_def del: One_nat_def)
  ultimately have im: "validate_input (Suc n) h (wire [''IM'', p, nm] @ r) ti = Some ?t" for r
    by metis
  have "client_loop (Suc n) hs 0 buf (wire [''IM'', p, nm] # l2 # l3 # ls) ti =
        Some (ti2\<lparr>msgCount := 2\<rparr>)"
    if fresh: "msgCount ti = 0" and h: "hs 0 = h"
      and second: "validate_input (Suc n) (hs 1) (fgets l2 (fgets (wire [''IM'', p, nm]) buf))
        (ti\<lparr>depot := (depot ti)\<lparr>numColons := 2\<rparr>, msgCount := 1\<rparr>) = Some ti2"
      and no: "\<not> imRecieved ti2"
  proof -
    from validate_input_msgCount [OF second] have c: "msgCount ti2 = 1" by simp
    have first: "validate_input (Suc n) (hs 0) (fgets (wire [''IM'', p, nm]) buf) ti = Some ?t"
      unfolding fgets_def h by (rule im)
    show ?thesis
      using first fresh second no c by (simp add: word_sless_alt)
  qed
  with im [of rest] show ?thesis by blast
qed

theorem duplicate_im_not_received_witness:
  "list_all plain [''9999'', ''beta''] \<and> verify_num ''9999'' \<noteq> 0 \<and> verify_name ''beta'' \<noteq> [] \<and>
   imRecieved example_session = False \<and>
   list_ex (\<lambda>nb. ''beta'' = name nb \<or> verify_num ''9999'' = portNo nb)
     (neighbours (depot example_session)) \<and>
   terminated (fresh_heap []) [''IM'', ''9999'', ''beta''] \<and>
   msgCount example_session = 0 \<and>
   validate_input 1 fresh_heap (wire [''IM'', ''9999'', ''beta'']) example_session =
     Some (example_session\<lparr>depot := example_depot\<lparr>numColons := 2\<rparr>\<rparr>) \<and>
   client_loop 1 (\<lambda>j. fresh_heap) 0 zero_bytes [wire [''IM'', ''9999'', ''beta''],
       ''Withdraw:1:widget\<newline>'', ''Withdraw:1:widget\<newline>'', ''Withdraw:1:widget\<newline>'']
       example_session =
     Some (example_session\<lparr>depot := example_depot\<lparr>numColons := 2,
          resources := [\<lparr>resource = ''widget'', amount = 9\<rparr>]\<rparr>, msgCount := 2\<rparr>)"
proof -
  have h1: "list_all plain [''9999'', ''beta'']" by (simp add: plain_def)
  have h2: "verify_num ''9999'' \<noteq> 0" by code_simp
  have h3: "verify_name ''beta'' \<noteq> []" by code_simp
  have h4: "\<not> imRecieved example_session" by (simp add: example_session_def)
  have h5: "list_ex (\<lambda>nb. ''beta'' = name nb \<or> verify_num ''9999'' = portNo nb)
     (neighbours (depot example_session))"
    by (simp add: example_session_def example_depot_def)
  have h6: "terminated (fresh_heap []) [''IM'', ''9999'', ''beta'']" by code_simp
  have h7: "msgCount example_session = 0" by (simp add: example_session_def)
  have h8: "validate_input (Suc 0) fresh_heap
      (fgets ''Withdraw:1:widget\<newline>'' (fgets (wire [''IM'', ''9999'', ''beta'']) zero_bytes))
      (example_session\<lparr>depot := (depot example_session)\<lparr>numColons := 2\<rparr>, msgCount := 1\<rparr>) =
     Some (example_session\<lparr>depot := example_depot\<lparr>numColons := 2,
          resources := [\<lparr>resource = ''widget'', amount = 9\<rparr>]\<rparr>, msgCount := 1\<rparr>)"
    by code_simp
  have h9: "\<not> imRecieved (example_session\<lparr>depot := example_depot\<lparr>numColons := 2,
          resources := [\<lparr>resource = ''widget'', amount = 9\<rparr>]\<rparr>, msgCount := 1\<rparr>)"
    by (simp add: example_session_def)
  from duplicate_im_not_received [where h = fresh_heap and hs = "\<lambda>j. fresh_heap" and n = 0
      and ti = example_session and rest = "[]" and buf = zero_bytes
      and ?l2.0 = "''Withdraw:1:widget\<newline>''" and ?l3.0 = "''Withdraw:1:widget\<newline>''"
      and ls = "[''Withdraw:1:widget\<newline>'']"
      and ?ti2.0 = "example_session\<lparr>depot := example_depot\<lparr>numColons := 2,
          resources := [\<lparr>resource = ''widget'', amount = 9\<rparr>]\<rparr>, msgCount := 1\<rparr>",
      OF h1 h2 h3 h4 h5 h6] h7 h8 h9
  show ?thesis
    using h1 h2 h3 h4 h5 h6 by (simp add: example_session_def)
qed


section \<open>The report\<close>

text \<open>
  C9. One round of \<open>sigcatcher\<close>, with \<open>qsort\<close> leaving the two arrays as the C standard
  says (the same elements, ascending in the comparison function), prints \<open>Goods:\<close>,
  then one line \<open>good amount\<close> for exactly the resources with an amount other than zero
  in ascending order of \<open>strcmp\<close> on the names, then \<open>Neighbours:\<close>, then the names of
  all neighbours in ascending order of \<open>strcmp\<close>.
\<close>

theorem sigcatcher_prints_sorted_report:
  assumes "qsort_result lexo_cmp (resources d) (qsort_r (resources d))"
      and "qsort_result neigh_cmp (neighbours d) (qsort_n (neighbours d))"
  shows "\<exists>gs ns. fst (sigcatcher qsort_r qsort_n d) =
       ''Goods:'' # map (\<lambda>r. resource r @ '' '' @ printf_d (amount r)) gs @
       ''Neighbours:'' # map name ns \<and>
     mset gs = filter_mset (\<lambda>r. amount r \<noteq> 0) (mset (resources d)) \<and>
     sorted_wrt (\<lambda>x y. strcmp (resource x) (resource y) \<le> 0) gs \<and>
     mset ns = mset (neighbours d) \<and>
     sorted_wrt (\<lambda>x y. strcmp (name x) (name y) \<le> 0) ns"
proof -
  let ?gs = "filter (\<lambda>r. amount r \<noteq> 0) (qsort_r (resources d))"
  let ?ns = "qsort_n (neighbours d)"
  have "fst (sigcatcher qsort_r qsort_n d) =
       ''Goods:'' # map (\<lambda>r. resource r @ '' '' @ printf_d (amount r)) ?gs @
       ''Neighbours:'' # map name ?ns"
    by (simp add: sigcatcher_def sort_neigh_def sort_resources_def Let_def)
  moreover have "mset ?gs = filter_mset (\<lambda>r. amount r \<noteq> 0) (mset (resources d))"
    using assms(1) by (simp add: qsort_result_def)
  moreover have "sorted_wrt (\<lambda>x y. strcmp (resource x) (resource y) \<le> 0) ?gs"
    using assms(1) by (simp add: qsort_result_def lexo_cmp_def sorted_wrt_filter)
  moreover have "mset ?ns = mset (neighbours d)"
    using assms(2) by (simp add: qsort_result_def)
  moreover have "sorted_wrt (\<lambda>x y. strcmp (name x) (name y) \<le> 0) ?ns"
    using assms(2) by (simp add: qsort_result_def neigh_cmp_def)
  ultimately show ?thesis by blast
qed

theorem sigcatcher_prints_sorted_report_witness:
  "qsort_result lexo_cmp (resources example_report_depot)
     ((\<lambda>xs. [xs ! 2, xs ! 1, xs ! 0]) (resources example_report_depot)) \<and>
   qsort_result neigh_cmp (neighbours example_report_depot) (rev (neighbours example_report_depot)) \<and>
   (\<exists>gs ns. fst (sigcatcher (\<lambda>xs. [xs ! 2, xs ! 1, xs ! 0]) rev example_report_depot) =
       ''Goods:'' # map (\<lambda>r. resource r @ '' '' @ printf_d (amount r)) gs @
       ''Neighbours:'' # map name ns \<and>
     mset gs = filter_mset (\<lambda>r. amount r \<noteq> 0) (mset (resources example_report_depot)) \<and>
     sorted_wrt (\<lambda>x y. strcmp (resource x) (resource y) \<le> 0) gs \<and>
     mset ns = mset (neighbours example_report_depot) \<and>
     sorted_wrt (\<lambda>x y. strcmp (name x) (name y) \<le> 0) ns) \<and>
   fst (sigcatcher (\<lambda>xs. [xs ! 2, xs ! 1, xs ! 0]) rev example_report_depot) =
     [''Goods:'', ''bolt -2'', ''widget 5'', ''Neighbours:'', ''beta'', ''gamma'']"
proof -
  have h1: "qsort_result lexo_cmp (resources example_report_depot)
      ((\<lambda>xs. [xs ! 2, xs ! 1, xs ! 0]) (resources example_report_depot))"
    by (simp add: qsort_result_def example_report_depot_def lexo_cmp_def)
  have h2: "qsort_result neigh_cmp (neighbours example_report_depot)
      (rev (neighbours example_report_depot))"
    by (simp add: qsort_result_def example_report_depot_def neigh_cmp_def)
  have out: "fst (sigcatcher (\<lambda>xs. [xs ! 2, xs ! 1, xs ! 0]) rev example_report_depot) =
     [''Goods:'', ''bolt -2'', ''widget 5'', ''Neighbours:'', ''beta'', ''gamma'']"
    by code_simp
  from sigcatcher_prints_sorted_report [where d = example_report_depot
      and qsort_r = "\<lambda>xs. [xs ! 2, xs ! 1, xs ! 0]" and qsort_n = rev, OF h1 h2] h1 h2 out
  show ?thesis
    by blast
qed

section \<open>Execute\<close>

text \<open>
  C10. \<open>execute_message\<close> with a key \<open>k\<close> that \<open>strtol\<close> reads completely as a positive
  number runs its second loop, over the stored lines of the entries pending for \<open>k\<close> in
  the order of the list, from the state in which its first loop has marked all of them
  complete: in that state no entry is pending for \<open>k\<close>. In every state \<open>u\<close> the thread
  reaches from there (\<open>validate_input_reaches\<close>, \<open>execute_loop_reaches\<close>: the states
  during and after the second loop are among them), an entry \<open>i\<close> of the batch is still
  the entry it was, marked complete, and is pending for no key, so that no call of
  \<open>execute_message\<close> made while the batch is dispatched collects it again.
\<close>

theorem execute_marks_before_dispatch:
  assumes "strtol (a 1) = (k, [])" "0 < k"
    and "reaches (ti\<lparr>deferred := mark k (deferred ti)\<rparr>) u"
    and "i \<in> set (pending k (deferred ti))"
  shows "execute_message n h a ti =
       execute_loop n h 0 (map (\<lambda>i. args (deferred ti ! i)) (pending k (deferred ti)))
         (ti\<lparr>deferred := mark k (deferred ti)\<rparr>) \<and>
     pending k (mark k (deferred ti)) = [] \<and>
     i < length (deferred u) \<and>
     deferred u ! i = (deferred ti ! i)\<lparr>complete := True\<rparr> \<and>
     i \<notin> set (pending k' (deferred u))"
proof -
  let ?t0 = "ti\<lparr>deferred := mark k (deferred ti)\<rparr>"
  from assms(4) have i: "i < length (deferred ?t0)"
    and m: "deferred ?t0 ! i = (deferred ti ! i)\<lparr>complete := True\<rparr>"
    by (simp_all add: pending_set mark_nth)
  then have c: "complete (deferred ?t0 ! i)" by simp
  from grows_complete [OF reaches_grows [OF assms(3)] i c] m
  have "i < length (deferred u)" "deferred u ! i = (deferred ti ! i)\<lparr>complete := True\<rparr>"
    by simp_all
  then show ?thesis
    using assms(1,2) by (simp add: execute_message_eq pending_set)
qed

theorem execute_marks_before_dispatch_witness:
  "strtol (arg (args_mem fresh_buffers) [''Execute'', ''7''] 1) = (7, []) \<and> (0 :: int) < 7 \<and>
   reaches (example_deferred\<lparr>deferred := mark 7 (deferred example_deferred)\<rparr>) example_executed \<and>
   1 \<in> set (pending 7 (deferred example_deferred)) \<and>
   pending 7 (deferred example_deferred) = [0, 1] \<and>
   execute_message 2 fresh_heap (arg (args_mem fresh_buffers) [''Execute'', ''7'']) example_deferred =
     execute_loop 2 fresh_heap 0 [''Deliver:2:bolt\<newline>'', ''Execute:7:x:y\<newline>'']
       (example_deferred\<lparr>deferred := mark 7 (deferred example_deferred)\<rparr>) \<and>
   execute_message 2 fresh_heap (arg (args_mem fresh_buffers) [''Execute'', ''7'']) example_deferred =
     Some example_executed \<and>
   pending 7 (mark 7 (deferred example_deferred)) = [] \<and>
   deferred example_executed ! 1 = (deferred example_deferred ! 1)\<lparr>complete := True\<rparr> \<and>
   1 \<notin> set (pending 7 (deferred example_executed)) \<and>
   quantity ''bolt'' (resources (depot example_executed)) = 2"
proof -
  let ?a = "arg (args_mem fresh_buffers) [''Execute'', ''7'']"
  let ?t0 = "example_deferred\<lparr>deferred := mark 7 (deferred example_deferred)\<rparr>"
  have h1: "strtol (?a 1) = (7, [])" by code_simp
  have h2: "(0 :: int) < 7" by simp
  have p: "pending 7 (deferred example_deferred) = [0, 1]" by code_simp
  have run: "execute_loop 2 fresh_heap 0 [''Deliver:2:bolt\<newline>'', ''Execute:7:x:y\<newline>''] ?t0 =
      Some example_executed"
    by code_simp
  from execute_loop_reaches [OF run] have h3: "reaches ?t0 example_executed" .
  have h4: "1 \<in> set (pending 7 (deferred example_deferred))" by (simp add: p)
  have b: "map (\<lambda>i. args (deferred example_deferred ! i)) (pending 7 (deferred example_deferred)) =
      [''Deliver:2:bolt\<newline>'', ''Execute:7:x:y\<newline>'']"
    by code_simp
  have q: "quantity ''bolt'' (resources (depot example_executed)) = 2" by code_simp
  note t = execute_marks_before_dispatch [where a = ?a and k = 7 and ti = example_deferred
      and u = example_executed and i = 1 and n = 2 and h = fresh_heap and k' = 7, OF h1 h2 h3 h4]
  from t [unfolded b] have f: "execute_message 2 fresh_heap ?a example_deferred =
      execute_loop 2 fresh_heap 0 [''Deliver:2:bolt\<newline>'', ''Execute:7:x:y\<newline>''] ?t0"
    by (rule conjunct1)
  from f run have g: "execute_message 2 fresh_heap ?a example_deferred = Some example_executed"
    by (rule trans)
  from t have r: "pending 7 (mark 7 (deferred example_deferred)) = []"
    "deferred example_executed ! 1 = (deferred example_deferred ! 1)\<lparr>complete := True\<rparr>"
    "1 \<notin> set (pending 7 (deferred example_executed))"
    by blast+
  from h1 h2 h3 h4 p f g r q show ?thesis by blast
qed

text \<open>
  C6. An Execute line right after an Execute that has dispatched a stored line does not
  run the entries pending for its key: \<open>validate_input\<close> writes a NUL after a field only
  when a colon follows it, so the key, the last field of the line, is read up to the
  first NUL its buffer happens to hold. In the session below the buffers of the line
  \<open>Execute:1234\<close> hold old pointers, the key is read as \<open>1234\<close> followed by two bytes of
  a pointer, \<open>strtol\<close> leaves these two bytes, and nothing is dispatched: the command
  \<open>Deliver:1:cog\<close> stored under 1234 has not run and its entry is still pending.
\<close>

theorem execute_after_execute_runs_nothing:
  "client_loop 2 (session_heaps 3) 0 zero_bytes
     [''IM:9998:gamma\<newline>'', ''Defer:7:Deliver:2:bolt\<newline>'', ''Defer:1234:Deliver:1:cog\<newline>'',
      ''Execute:7\<newline>'', ''Execute:1234\<newline>''] example_session =
     Some (example_session
       \<lparr>depot := example_depot
          \<lparr>numColons := 1,
           resources := [\<lparr>resource = ''widget'', amount = 10\<rparr>, \<lparr>resource = ''bolt'', amount = 2\<rparr>],
           neighbours := [\<lparr>name = ''beta'', portNo = 9999, nb_to = 7, nb_from = 8\<rparr>,
             \<lparr>name = ''gamma'', portNo = 9998, nb_to = 5, nb_from = 6\<rparr>]\<rparr>,
        deferred := [\<lparr>key = 7, args = ''Deliver:2:bolt\<newline>'', complete = True\<rparr>,
          \<lparr>key = 1234, args = ''Deliver:1:cog\<newline>'', complete = False\<rparr>],
        msgCount := 5, imRecieved := True\<rparr>) \<and>
   arg (args_mem (session_heaps 3 4 [])) [''Execute'', ''1234''] 1 = ''1234'' @ [CHR 0x55, CHR 0x7F] \<and>
   pending 1234 [\<lparr>key = 7, args = ''Deliver:2:bolt\<newline>'', complete = True\<rparr>,
          \<lparr>key = 1234, args = ''Deliver:1:cog\<newline>'', complete = False\<rparr>] = [1]"
  by code_simp


end
